theory Spec2Isabelle
  imports Complex_Main
begin

section \<open>JavaScript values read by the symbology code\<close>

text \<open>
  The module \<^verbatim>\<open>src/symbology.js\<close> works on plain JSON objects: ESRI renderers, feature
  attributes, legends and LOD lists. The embedding keeps the fields the code reads and
  makes explicit what JavaScript does silently: a missing property is \<open>undefined\<close>, a
  method call on \<open>undefined\<close> or \<open>null\<close> throws a \<open>TypeError\<close>, string
  concatenation converts its operand to a string.

  Numbers: the values the code only compares (a parsed attribute) range over the finite
  numbers, the two infinities and \<open>NaN\<close>; the bounds that come from the renderer's JSON
  are finite. A finite number is the real number its double stands for, and comparing two
  doubles is comparing these reals. The one arithmetic operation of the code on such
  numbers, \<open>lower - 1\<close>, rounds to a double: it is a parameter of the model (\<open>minusOne\<close>
  below). Below a magnitude of \<open>2^53\<close> its result is the exact difference; for a number as
  large as \<open>2^54\<close> its result is that number itself.
\<close>

datatype error = TypeError | Failure string

text \<open>What \<open>console.error(err)\<close> prints for an exception.\<close>

fun error_text :: "error \<Rightarrow> string" where
  "error_text TypeError = ''TypeError''"
| "error_text (Failure reason) = reason"

datatype jsnum = NaN | NegInf | Fin real | PosInf

datatype jsval = JUndefined | JNull | JBoolean bool | JNumber jsnum | JString string

text \<open>
  Three operations belong to the JavaScript runtime and not to the repository: printing a
  number, \<open>parseFloat\<close> of a string, and the subtraction \<open>x - 1\<close> of double precision.
  They are parameters of the model.
\<close>

record builtins =
  numberToString :: "jsnum \<Rightarrow> string"
  parseFloatString :: "string \<Rightarrow> jsnum"
  minusOne :: "real \<Rightarrow> real"

text \<open>A property name that may be \<open>undefined\<close>, used as a key: \<open>obj[undefined]\<close> reads \<open>obj["undefined"]\<close>.\<close>

definition key_of :: "string option \<Rightarrow> string" where
  "key_of k = (case k of None \<Rightarrow> ''undefined'' | Some s \<Rightarrow> s)"

text \<open>Truthiness of an optional string: \<open>undefined\<close> and the empty string are falsy.\<close>

definition truthy :: "string option \<Rightarrow> bool" where
  "truthy s = (case s of None \<Rightarrow> False | Some t \<Rightarrow> t \<noteq> [])"

text \<open>The conversion applied by \<open>+\<close> to a string and any value.\<close>

fun ToString :: "builtins \<Rightarrow> jsval \<Rightarrow> string" where
  "ToString bi JUndefined = ''undefined''"
| "ToString bi JNull = ''null''"
| "ToString bi (JBoolean b) = (if b then ''true'' else ''false'')"
| "ToString bi (JNumber n) = numberToString bi n"
| "ToString bi (JString s) = s"

text \<open>The method call \<open>v.toString()\<close>: there is no such method on \<open>undefined\<close> and \<open>null\<close>.\<close>

fun toString_method :: "builtins \<Rightarrow> jsval \<Rightarrow> error + string" where
  "toString_method bi JUndefined = Inl TypeError"
| "toString_method bi JNull = Inl TypeError"
| "toString_method bi v = Inr (ToString bi v)"

text \<open>
  \<open>parseFloat(v)\<close> converts \<open>v\<close> to a string and parses a leading number. A number
  survives the round trip; \<open>"undefined"\<close>, \<open>"null"\<close>, \<open>"true"\<close> and \<open>"false"\<close> start with
  no digit and give \<open>NaN\<close>.
\<close>

fun parseFloat :: "builtins \<Rightarrow> jsval \<Rightarrow> jsnum" where
  "parseFloat bi (JNumber n) = n"
| "parseFloat bi (JString s) = parseFloatString bi s"
| "parseFloat bi v = NaN"

text \<open>The relational operators between a parsed value and a finite bound. Every comparison with \<open>NaN\<close> is false.\<close>

fun js_lt :: "jsnum \<Rightarrow> real \<Rightarrow> bool" where
  "js_lt NaN b = False"
| "js_lt NegInf b = True"
| "js_lt (Fin a) b = (a < b)"
| "js_lt PosInf b = False"

fun js_gt :: "jsnum \<Rightarrow> real \<Rightarrow> bool" where
  "js_gt NaN b = False"
| "js_gt NegInf b = False"
| "js_gt (Fin a) b = (a > b)"
| "js_gt PosInf b = True"

fun js_le :: "jsnum \<Rightarrow> real \<Rightarrow> bool" where
  "js_le NaN b = False"
| "js_le NegInf b = True"
| "js_le (Fin a) b = (a \<le> b)"
| "js_le PosInf b = False"

text \<open>\<open>Array.prototype.find\<close> with a callback that also reads the index.\<close>

fun find_indexed :: "('a \<Rightarrow> nat \<Rightarrow> bool) \<Rightarrow> 'a list \<Rightarrow> nat \<Rightarrow> 'a option" where
  "find_indexed p [] i = None"
| "find_indexed p (x # xs) i = (if p x i then Some x else find_indexed p xs (Suc i))"

section \<open>Icons\<close>

text \<open>
  An icon is the markup \<open>draw.svg()\<close> of an svg.js document. The serialisation is not
  modelled: an icon is identified with the document it prints, that is its size, its
  view box and its children.
\<close>

datatype svg_element = ImageElement string

record svg =
  svg_size :: "(nat \<times> nat) option"
  svg_viewbox :: "(nat \<times> nat \<times> nat \<times> nat) option"
  svg_children :: "svg_element list"

definition svgjs :: svg where
  "svgjs = \<lparr>svg_size = None, svg_viewbox = None, svg_children = []\<rparr>"

definition size_svg :: "nat \<Rightarrow> nat \<Rightarrow> svg \<Rightarrow> svg" where
  "size_svg w h d = d\<lparr>svg_size := Some (w, h)\<rparr>"

definition viewbox :: "nat \<Rightarrow> nat \<Rightarrow> nat \<Rightarrow> nat \<Rightarrow> svg \<Rightarrow> svg" where
  "viewbox x y w h d = d\<lparr>svg_viewbox := Some (x, y, w, h)\<rparr>"

definition image_svg :: "string \<Rightarrow> svg \<Rightarrow> svg" where
  "image_svg uri d = d\<lparr>svg_children := svg_children d @ [ImageElement uri]\<rparr>"

definition CONTAINER_SIZE :: nat where
  "CONTAINER_SIZE = 32"

section \<open>Renderers\<close>

definition SIMPLE :: string where
  "SIMPLE = ''simple''"

definition UNIQUE_VALUE :: string where
  "UNIQUE_VALUE = ''uniqueValue''"

definition CLASS_BREAKS :: string where
  "CLASS_BREAKS = ''classBreaks''"

text \<open>
  A symbol is an opaque ESRI object \<open>'s\<close>; the code also produces the empty object
  \<open>{}\<close> and passes \<open>undefined\<close> on when a renderer has no symbol.
\<close>

datatype 's symval = SymUndefined | SymEmpty | Sym 's

text \<open>
  A legend entry is \<open>{label, svgcode}\<close>, its \<open>svgcode\<close> the markup of a drawing. A
  renderer item (a unique value info, a class break info, and the simple renderer itself)
  carries a label, a symbol and, once enhanced, the icon \<open>svgcode\<close>; an absent \<open>svgcode\<close>
  is \<open>None\<close>. The icon of a renderer item is read from a plain object by the item's
  label (\<open>legendLookup[uvi.label]\<close>), so it is either markup or, for a label that names
  a member of \<open>Object.prototype\<close> and no legend entry, that inherited member.
\<close>

datatype icon = Markup svg | PrototypeMember string

record 'v legend_entry =
  label :: "string option"
  svgcode :: "'v option"

record 's info = "icon legend_entry" +
  symbol :: "'s symval"

record 's uniqueValueInfo = "'s info" +
  "value" :: string

record 's classBreakInfo = "'s info" +
  classMaxValue :: real

record 's renderer = "'s info" +
  type :: string
  field1 :: "string option"
  field2 :: "string option"
  field3 :: "string option"
  uniqueValueInfos :: "'s uniqueValueInfo list"
  field :: "string option"
  minValue :: real
  classBreakInfos :: "'s classBreakInfo list"
  defaultLabel :: "string option"
  defaultSymbol :: "'s symval"
  defaultsvgcode :: "icon option"

section \<open>searchRenderer, getGraphicIcon, getGraphicSymbol\<close>

text \<open>
  Lines 105 to 117: the key of a graphic under a unique value renderer. Only a \<open>null\<close>
  value of the first field is replaced by the empty string; a value that is not a string
  is printed by its \<open>toString\<close> method, which \<open>undefined\<close> does not have. The second and
  third fields are appended by string concatenation, the third only inside the test of
  the second.
\<close>

definition graphicKey :: "builtins \<Rightarrow> (string \<Rightarrow> jsval) \<Rightarrow> 's renderer \<Rightarrow> error + string" where
  "graphicKey bi attributes renderer =
     (let v = (if attributes (key_of (field1 renderer)) = JNull then JString ''''
               else attributes (key_of (field1 renderer)));
          k1 = (case v of JString s \<Rightarrow> Inr s | _ \<Rightarrow> toString_method bi v)
      in case k1 of
           Inl e \<Rightarrow> Inl e
         | Inr k \<Rightarrow>
             Inr (if truthy (field2 renderer)
                  then (let k2 = k @ '', '' @ ToString bi (attributes (key_of (field2 renderer)))
                        in if truthy (field3 renderer)
                           then k2 @ '', '' @ ToString bi (attributes (key_of (field3 renderer)))
                           else k2)
                  else k))"

text \<open>Lines 164 to 167: an icon that is still \<open>undefined\<close> is replaced by an empty container.\<close>

definition emptyContainer :: svg where
  "emptyContainer = size_svg CONTAINER_SIZE CONTAINER_SIZE svgjs"

definition orEmpty :: "icon option \<Rightarrow> icon" where
  "orEmpty s = (case s of None \<Rightarrow> Markup emptyContainer | Some i \<Rightarrow> i)"

text \<open>
  The result is the list of console warnings and either the exception thrown or the pair
  \<open>{svgcode, symbol}\<close>.
\<close>

definition searchRenderer ::
  "builtins \<Rightarrow> (string \<Rightarrow> jsval) \<Rightarrow> 's renderer \<Rightarrow> string list \<times> (error + icon \<times> 's symval)" where
  "searchRenderer bi attributes renderer =
     (if type renderer = SIMPLE then
        ([], Inr (orEmpty (svgcode renderer), symbol renderer))
      else if type renderer = UNIQUE_VALUE then
        (case graphicKey bi attributes renderer of
           Inl e \<Rightarrow> ([], Inl e)
         | Inr k \<Rightarrow>
             (case find (\<lambda>uvi. value uvi = k) (uniqueValueInfos renderer) of
                Some uvi \<Rightarrow> ([], Inr (orEmpty (svgcode uvi), symbol uvi))
              | None \<Rightarrow> ([], Inr (orEmpty (defaultsvgcode renderer), defaultSymbol renderer))))
      else if type renderer = CLASS_BREAKS then
        (let gVal = parseFloat bi (attributes (key_of (field renderer)));
             lower = minValue renderer
         in if js_lt gVal lower then
              ([], Inr (orEmpty (defaultsvgcode renderer), defaultSymbol renderer))
            else
              (let minSplits = minusOne bi lower # map classMaxValue (classBreakInfos renderer)
               in case find_indexed
                         (\<lambda>cbi index. js_gt gVal (minSplits ! index) \<and> js_le gVal (classMaxValue cbi))
                         (classBreakInfos renderer) 0 of
                    None \<Rightarrow> ([], Inr (orEmpty (defaultsvgcode renderer), defaultSymbol renderer))
                  | Some cbi \<Rightarrow> ([], Inr (orEmpty (svgcode cbi), symbol cbi))))
      else
        ([''Unknown renderer type encountered - '' @ type renderer],
         Inr (Markup emptyContainer, SymEmpty)))"

definition getGraphicIcon :: "builtins \<Rightarrow> (string \<Rightarrow> jsval) \<Rightarrow> 's renderer \<Rightarrow> error + icon" where
  "getGraphicIcon bi attributes renderer =
     (case snd (searchRenderer bi attributes renderer) of
        Inl e \<Rightarrow> Inl e
      | Inr renderInfo \<Rightarrow> Inr (fst renderInfo))"

definition getGraphicSymbol :: "builtins \<Rightarrow> (string \<Rightarrow> jsval) \<Rightarrow> 's renderer \<Rightarrow> error + 's symval" where
  "getGraphicSymbol bi attributes renderer =
     (case snd (searchRenderer bi attributes renderer) of
        Inl e \<Rightarrow> Inl e
      | Inr renderInfo \<Rightarrow> Inr (snd renderInfo))"

section \<open>Promises and legends\<close>

text \<open>
  A promise is known by the moment it settles and by its outcome: the value it resolves
  with, or the reason it rejects with (\<open>Inl\<close>). A \<open>then\<close> callback runs when its promise
  settles; callbacks of promises that settle at the same moment (in particular of
  promises that are already settled when the callbacks are attached) run in the order
  they were attached.
\<close>

record 'a promise =
  settles_at :: nat
  outcome :: "error + 'a"

text \<open>A legend item resolves with a legend entry, or with \<open>undefined\<close> when its drawing failed.\<close>

type_synonym legend_item = "svg legend_entry option promise"

record layer_legend =
  layerId :: int
  legend :: "legend_item list"

record legend_object =
  layers :: "layer_legend list"

section \<open>enhanceRenderer\<close>

text \<open>
  Line 38: \<open>legendLookup\<close> is a plain object, \<open>{}\<close>. It is modelled by its own
  properties, each holding markup or \<open>undefined\<close>, over the members it inherits from
  \<open>Object.prototype\<close>. An assignment to the name \<open>__proto__\<close> goes to the setter of
  \<open>Object.prototype\<close>, which ignores a value that is neither an object nor \<open>null\<close>; any
  other assignment creates or overwrites an own property. A read returns the own
  property when there is one, the inherited member when the name is one of
  \<open>Object.prototype\<close>, and \<open>undefined\<close> otherwise.
\<close>

type_synonym legend_lookup = "string \<Rightarrow> svg option option"

definition emptyObject :: legend_lookup where
  "emptyObject = (\<lambda>k. None)"

definition objectPrototypeMembers :: "string list" where
  "objectPrototypeMembers =
     [''constructor'', ''__defineGetter__'', ''__defineSetter__'', ''hasOwnProperty'',
      ''__lookupGetter__'', ''__lookupSetter__'', ''isPrototypeOf'', ''propertyIsEnumerable'',
      ''toString'', ''valueOf'', ''__proto__'', ''toLocaleString'']"

definition setProperty :: "legend_lookup \<Rightarrow> string \<Rightarrow> svg option \<Rightarrow> legend_lookup" where
  "setProperty obj k v = (if k = ''__proto__'' then obj else obj(k := Some v))"

definition getProperty :: "legend_lookup \<Rightarrow> string \<Rightarrow> icon option" where
  "getProperty obj k =
     (case obj k of
        Some v \<Rightarrow> map_option Markup v
      | None \<Rightarrow> if k \<in> set objectPrototypeMembers then Some (PrototypeMember k) else None)"

text \<open>
  Lines 41 to 44: the callback \<open>data => legendLookup[data.label] = data.svgcode\<close> of
  each legend item, run over the items in the order they settle. A rejected item, or an
  item that resolved with \<open>undefined\<close> (reading \<open>data.label\<close> throws), makes \<open>Promise.all\<close>
  reject, and the switch over the renderer never runs.
\<close>

fun legendItemCallbacks :: "legend_item list \<Rightarrow> legend_lookup \<Rightarrow> error + legend_lookup" where
  "legendItemCallbacks [] legendLookup = Inr legendLookup"
| "legendItemCallbacks (legItem # rest) legendLookup =
     (case outcome legItem of
        Inl e \<Rightarrow> Inl e
      | Inr None \<Rightarrow> Inl TypeError
      | Inr (Some data) \<Rightarrow>
          legendItemCallbacks rest (setProperty legendLookup (key_of (label data)) (svgcode data)))"

text \<open>
  What a call leaves behind: how the returned promise settled, the renderer (modified in
  place by the source, returned here) and the console warnings.
\<close>

record 's enhancement =
  settled :: "error + unit"
  enhanced :: "'s renderer"
  warnings :: "string list"

definition enhanceRenderer :: "'s renderer \<Rightarrow> legend_object \<Rightarrow> error + 's enhancement" where
  "enhanceRenderer renderer lg =
     (case layers lg of
        [] \<Rightarrow> Inl TypeError
      | layer0 # _ \<Rightarrow>
          Inr (case legendItemCallbacks (sort_key settles_at (legend layer0)) emptyObject of
                 Inl e \<Rightarrow> \<lparr>settled = Inl e, enhanced = renderer, warnings = []\<rparr>
               | Inr legendLookup \<Rightarrow>
                   if type renderer = SIMPLE then
                     \<lparr>settled = Inr (),
                      enhanced = renderer\<lparr>svgcode := getProperty legendLookup (key_of (label renderer))\<rparr>,
                      warnings = []\<rparr>
                   else if type renderer = UNIQUE_VALUE then
                     \<lparr>settled = Inr (),
                      enhanced =
                        (if truthy (defaultLabel renderer)
                         then renderer\<lparr>defaultsvgcode := getProperty legendLookup (key_of (defaultLabel renderer))\<rparr>
                         else renderer)
                        \<lparr>uniqueValueInfos :=
                           map (\<lambda>uvi. uvi\<lparr>svgcode := getProperty legendLookup (key_of (label uvi))\<rparr>)
                             (uniqueValueInfos renderer)\<rparr>,
                      warnings = []\<rparr>
                   else if type renderer = CLASS_BREAKS then
                     \<lparr>settled = Inr (),
                      enhanced =
                        (if truthy (defaultLabel renderer)
                         then renderer\<lparr>defaultsvgcode := getProperty legendLookup (key_of (defaultLabel renderer))\<rparr>
                         else renderer)
                        \<lparr>classBreakInfos :=
                           map (\<lambda>cbi. cbi\<lparr>svgcode := getProperty legendLookup (key_of (label cbi))\<rparr>)
                             (classBreakInfos renderer)\<rparr>,
                      warnings = []\<rparr>
                   else
                     \<lparr>settled = Inr (), enhanced = renderer,
                      warnings = [''encountered unsupported renderer type: '' @ type renderer]\<rparr>))"

section \<open>symbolToLegend and rendererToLegend\<close>

text \<open>
  The drawing of one symbol object (lines 281 to 541: svg.js calls and image loading in
  the browser) is the parameter \<open>drawSymbol\<close>. It throws at once when the type or the
  style of the symbol has no drawing routine, and otherwise answers with the moment the
  drawing is over and either the finished drawing or the failure of its image. Lines 543
  to 550 are modelled: \<open>symbolTypes[symbol.type]()\<close> throws at once for a symbol that is
  \<open>undefined\<close> (it has no properties) or \<open>{}\<close> (it has no type), before there is a
  promise; a failure of the drawing is caught and logged, so the legend item resolves
  with \<open>undefined\<close>.
\<close>

type_synonym 's drawing = "'s \<Rightarrow> error + nat \<times> (error + svg)"

definition symbolToLegend :: "'s drawing \<Rightarrow> 's symval \<Rightarrow> string option \<Rightarrow> error + legend_item" where
  "symbolToLegend drawSymbol symb lab =
     (case symb of
        SymUndefined \<Rightarrow> Inl TypeError
      | SymEmpty \<Rightarrow> Inl TypeError
      | Sym s \<Rightarrow>
          (case drawSymbol s of
             Inl e \<Rightarrow> Inl e
           | Inr (t, drawn) \<Rightarrow>
               Inr \<lparr>settles_at = t,
                    outcome = Inr (case drawn of
                                     Inl e \<Rightarrow> None
                                   | Inr drawing \<Rightarrow> Some \<lparr>label = lab, svgcode = Some drawing\<rparr>)\<rparr>))"

text \<open>\<open>Array.prototype.map\<close> with a callback that may throw: the first exception ends the call.\<close>

fun map_throwing :: "('a \<Rightarrow> error + 'b) \<Rightarrow> 'a list \<Rightarrow> error + 'b list" where
  "map_throwing f [] = Inr []"
| "map_throwing f (x # xs) =
     (case f x of
        Inl e \<Rightarrow> Inl e
      | Inr y \<Rightarrow> (case map_throwing f xs of Inl e \<Rightarrow> Inl e | Inr ys \<Rightarrow> Inr (y # ys)))"

definition scrapeListRenderer ::
  "'s drawing \<Rightarrow> 's renderer \<Rightarrow> ('s, 'z) info_scheme list \<Rightarrow> error + legend_item list" where
  "scrapeListRenderer drawSymbol renderer childList =
     (case map_throwing (\<lambda>child. symbolToLegend drawSymbol (symbol child) (label child)) childList of
        Inl e \<Rightarrow> Inl e
      | Inr lg \<Rightarrow>
          if defaultSymbol renderer \<noteq> SymUndefined then
            (case symbolToLegend drawSymbol (defaultSymbol renderer)
                    (if truthy (defaultLabel renderer) then defaultLabel renderer else Some []) of
               Inl e \<Rightarrow> Inl e
             | Inr d \<Rightarrow> Inr (lg @ [d]))
          else Inr lg)"

definition rendererToLegend ::
  "'s drawing \<Rightarrow> 's renderer \<Rightarrow> int \<Rightarrow> string list \<times> (error + legend_object)" where
  "rendererToLegend drawSymbol renderer index =
     (if type renderer = SIMPLE then
        (case symbolToLegend drawSymbol (symbol renderer) (label renderer) of
           Inl e \<Rightarrow> ([], Inl e)
         | Inr item \<Rightarrow> ([], Inr \<lparr>layers = [\<lparr>layerId = index, legend = [item]\<rparr>]\<rparr>))
      else if type renderer = UNIQUE_VALUE then
        (case scrapeListRenderer drawSymbol renderer (uniqueValueInfos renderer) of
           Inl e \<Rightarrow> ([], Inl e)
         | Inr items \<Rightarrow> ([], Inr \<lparr>layers = [\<lparr>layerId = index, legend = items\<rparr>]\<rparr>))
      else if type renderer = CLASS_BREAKS then
        (case scrapeListRenderer drawSymbol renderer (classBreakInfos renderer) of
           Inl e \<Rightarrow> ([], Inl e)
         | Inr items \<Rightarrow> ([], Inr \<lparr>layers = [\<lparr>layerId = index, legend = items\<rparr>]\<rparr>))
      else
        ([''encountered unsupported renderer legend type: '' @ type renderer],
         Inr \<lparr>layers = [\<lparr>layerId = index, legend = []\<rparr>]\<rparr>))"

section \<open>generateWMSSymbology\<close>

text \<open>
  \<open>shared.convertImagetoDataURL\<close> and the loading of an image by the browser are
  parameters: each either fails or delivers (the data URL, the width and height of the
  loaded image). \<open>svgDrawImage\<close> adds the image to the drawing before it is loaded; when
  the loading fails it rejects and prints the error (lines 618 to 621). An entry of the
  console is the list of the arguments of one call of \<open>console.error\<close>.
\<close>

record symbologyItem =
  name :: string
  item_svgcode :: "svg option"

definition svgDrawImage ::
  "(string \<Rightarrow> error + nat \<times> nat) \<Rightarrow> svg \<Rightarrow> string
     \<Rightarrow> svg \<times> string list list \<times> (error + nat \<times> nat)" where
  "svgDrawImage loadImage draw imageUri =
     (image_svg imageUri draw,
      case loadImage imageUri of
        Inl err \<Rightarrow> ([[error_text err]], Inl err)
      | Inr loader \<Rightarrow> ([], Inr loader))"

text \<open>
  The result is the console errors and the value the returned promise resolves with;
  \<open>None\<close> is \<open>undefined\<close>. The handler of \<open>catch\<close> (lines 227 to 230) stores the empty
  drawing in the local \<open>symbologyItem\<close> and ends without a \<open>return\<close>.
\<close>

definition generateWMSSymbology ::
  "(string \<Rightarrow> error + string) \<Rightarrow> (string \<Rightarrow> error + nat \<times> nat) \<Rightarrow> string \<Rightarrow> string option
     \<Rightarrow> string list list \<times> (error + symbologyItem option)" where
  "generateWMSSymbology convertImagetoDataURL loadImage nm imageUri =
     (let draw = viewbox 0 0 0 0 (size_svg CONTAINER_SIZE CONTAINER_SIZE svgjs)
      in case imageUri of
           None \<Rightarrow> ([], Inr (Some \<lparr>name = nm, item_svgcode = Some draw\<rparr>))
         | Some uri \<Rightarrow>
             if uri = [] then ([], Inr (Some \<lparr>name = nm, item_svgcode = Some draw\<rparr>))
             else
               (case convertImagetoDataURL uri of
                  Inl err \<Rightarrow>
                    ([[''Cannot draw wms legend image; returning empty'', error_text err]], Inr None)
                | Inr dataUri \<Rightarrow>
                    (case svgDrawImage loadImage draw dataUri of
                       (draw1, printed, Inl err) \<Rightarrow>
                         (printed @ [[''Cannot draw wms legend image; returning empty'', error_text err]],
                          Inr None)
                     | (draw1, printed, Inr (w, h)) \<Rightarrow>
                         (printed,
                          Inr (Some \<lparr>name = nm, item_svgcode = Some (viewbox 0 0 w h draw1)\<rparr>)))))"

section \<open>getZoomLevel\<close>

record lod =
  scale :: real

text \<open>
  The loop of lines 839 to 849, with the number of iterations made so far as a last
  argument. Reading \<open>lods[currentLod].scale\<close> outside the list throws. The loop may run
  forever: not returning is the value \<open>None\<close>.
\<close>

partial_function (option) zoomLoop ::
  "lod list \<Rightarrow> real \<Rightarrow> int \<Rightarrow> int \<Rightarrow> int \<Rightarrow> nat \<Rightarrow> (error + int \<times> nat) option" where
  "zoomLoop lods scaleLimit currentLod lowLod highLod n =
     (if 0 \<le> currentLod \<and> currentLod < int (length lods) then
        (let lowLod' = (if scale (lods ! nat currentLod) \<ge> scaleLimit then currentLod else lowLod);
             highLod' = (if scale (lods ! nat currentLod) \<ge> scaleLimit then highLod else currentLod);
             currentLod' = (highLod' + lowLod') div 2
         in if highLod' = lowLod' + 1 then Some (Inr (currentLod', Suc n))
            else zoomLoop lods scaleLimit currentLod' lowLod' highLod' (Suc n))
      else Some (Inl TypeError))"

declare zoomLoop.simps [code]

text \<open>The index returned together with the number of loop iterations.\<close>

definition getZoomLevel_run :: "lod list \<Rightarrow> real \<Rightarrow> (error + int \<times> nat) option" where
  "getZoomLevel_run lods maxScale =
     (if maxScale = 0 then Some (Inr (int (length lods) - 1, 0))
      else zoomLoop lods maxScale ((int (length lods) + 1) div 2) 0 (int (length lods) - 1) 0)"

definition getZoomLevel :: "lod list \<Rightarrow> real \<Rightarrow> (error + int) option" where
  "getZoomLevel lods maxScale = map_option (map_sum id fst) (getZoomLevel_run lods maxScale)"

section \<open>The composite key in the words of the specification\<close>

text \<open>
  Section 4.4 of the specification words the key of a unique value renderer as: the value
  of field 1 as a string, \<open>null\<close> as the empty string, followed by \<open>", "\<close> and the value
  of field 2 and by \<open>", "\<close> and the value of field 3 when those fields are configured.
  A third field is taken to follow a second one. This definition is compared with
  \<open>graphicKey\<close>, which is the code.
\<close>

definition compositeKey_spec :: "builtins \<Rightarrow> (string \<Rightarrow> jsval) \<Rightarrow> 's renderer \<Rightarrow> string" where
  "compositeKey_spec bi attributes renderer =
     (if attributes (key_of (field1 renderer)) = JNull then []
      else ToString bi (attributes (key_of (field1 renderer))))
     @ (if truthy (field2 renderer)
        then '', '' @ ToString bi (attributes (key_of (field2 renderer)))
             @ (if truthy (field3 renderer)
                then '', '' @ ToString bi (attributes (key_of (field3 renderer)))
                else [])
        else [])"

section \<open>Example data\<close>

text \<open>
  A unique value renderer over two fields with a repeated value, a class breaks renderer
  with the upper bounds 9.5 and 20, a feature, a legend of two entries that share the
  label \<open>lake\<close> and settle at the given moments, and a drawing routine.
\<close>

abbreviation example_svg :: "string \<Rightarrow> svg" where
  "example_svg uri \<equiv> \<lparr>svg_size = Some (32, 32), svg_viewbox = Some (0, 0, 32, 32), svg_children = [ImageElement uri]\<rparr>"

abbreviation example_icon :: "string \<Rightarrow> icon" where
  "example_icon uri \<equiv> Markup (example_svg uri)"

abbreviation example_uniqueValue :: "nat renderer" where
  "example_uniqueValue \<equiv>
     \<lparr>label = None, svgcode = None, symbol = SymUndefined,
      type = ''uniqueValue'',
      field1 = Some ''KIND'', field2 = Some ''SIZE'', field3 = None,
      uniqueValueInfos =
        [\<lparr>label = Some ''small lake'', svgcode = Some (example_icon ''a.png''), symbol = Sym 1, value = ''lake, small''\<rparr>,
         \<lparr>label = Some ''pond'', svgcode = Some (example_icon ''b.png''), symbol = Sym 2, value = ''lake, small''\<rparr>,
         \<lparr>label = Some ''lake'', svgcode = Some (example_icon ''c.png''), symbol = Sym 3, value = ''lake''\<rparr>],
      field = None, minValue = 0, classBreakInfos = [],
      defaultLabel = Some ''other'', defaultSymbol = Sym 0, defaultsvgcode = None\<rparr>"

abbreviation example_attributes :: "string \<Rightarrow> jsval" where
  "example_attributes \<equiv> (\<lambda>k. JUndefined)(''KIND'' := JString ''lake'', ''SIZE'' := JString ''small'')"

abbreviation example_classBreaks :: "real \<Rightarrow> nat renderer" where
  "example_classBreaks lowest \<equiv>
     \<lparr>label = None, svgcode = None, symbol = SymUndefined,
      type = ''classBreaks'',
      field1 = None, field2 = None, field3 = None, uniqueValueInfos = [],
      field = Some ''POP'', minValue = lowest,
      classBreakInfos =
        [\<lparr>label = Some ''low'', svgcode = Some (example_icon ''a.png''), symbol = Sym 1, classMaxValue = 9.5\<rparr>,
         \<lparr>label = Some ''high'', svgcode = Some (example_icon ''b.png''), symbol = Sym 2, classMaxValue = 20\<rparr>],
      defaultLabel = None, defaultSymbol = Sym 0, defaultsvgcode = Some (example_icon ''d.png'')\<rparr>"

abbreviation example_legend :: "nat \<Rightarrow> nat \<Rightarrow> legend_object" where
  "example_legend t1 t2 \<equiv>
     \<lparr>layers =
        [\<lparr>layerId = 0,
          legend =
            [\<lparr>settles_at = t1,
              outcome = Inr (Some \<lparr>label = Some ''lake'', svgcode = Some (example_svg ''first.png'')\<rparr>)\<rparr>,
             \<lparr>settles_at = t2,
              outcome = Inr (Some \<lparr>label = Some ''lake'', svgcode = Some (example_svg ''second.png'')\<rparr>)\<rparr>]\<rparr>]\<rparr>"

abbreviation example_drawing :: "nat drawing" where
  "example_drawing \<equiv> (\<lambda>n. if n < 10 then Inr (n, Inr (example_svg ''drawn.png'')) else Inl TypeError)"

section \<open>Properties of searchRenderer\<close>

subsection \<open>Auxiliary facts\<close>

lemma renderer_types_distinct:
  "SIMPLE \<noteq> UNIQUE_VALUE" "SIMPLE \<noteq> CLASS_BREAKS" "UNIQUE_VALUE \<noteq> CLASS_BREAKS"
  "UNIQUE_VALUE \<noteq> SIMPLE" "CLASS_BREAKS \<noteq> SIMPLE" "CLASS_BREAKS \<noteq> UNIQUE_VALUE"
  by (simp_all add: SIMPLE_def UNIQUE_VALUE_def CLASS_BREAKS_def)

lemma toString_method_defined:
  "v \<noteq> JUndefined \<Longrightarrow> v \<noteq> JNull \<Longrightarrow> toString_method bi v = Inr (ToString bi v)"
  by (cases v) simp_all

text \<open>When the attributes define the first field, the key of the code is the key of the specification.\<close>

lemma graphicKey_defined:
  assumes "attributes (key_of (field1 r)) \<noteq> JUndefined"
  shows "graphicKey bi attributes r = Inr (compositeKey_spec bi attributes r)"
proof (cases "attributes (key_of (field1 r))")
  case JUndefined
  then show ?thesis using assms by simp
next
  case JNull
  then show ?thesis by (simp add: graphicKey_def compositeKey_spec_def Let_def)
next
  case (JBoolean b)
  then show ?thesis by (simp add: graphicKey_def compositeKey_spec_def Let_def)
next
  case (JNumber n)
  then show ?thesis by (simp add: graphicKey_def compositeKey_spec_def Let_def)
next
  case (JString s)
  then show ?thesis by (simp add: graphicKey_def compositeKey_spec_def Let_def)
qed

lemma graphicKey_undefined:
  "attributes (key_of (field1 r)) = JUndefined \<Longrightarrow> graphicKey bi attributes r = Inl TypeError"
  by (simp add: graphicKey_def Let_def)

lemma find_first_index:
  "i < length xs \<Longrightarrow> P (xs ! i) \<Longrightarrow> (\<forall>j<i. \<not> P (xs ! j)) \<Longrightarrow> find P xs = Some (xs ! i)"
  by (auto simp: find_Some_iff)

lemma find_none: "(\<forall>x\<in>set xs. \<not> P x) \<Longrightarrow> find P xs = None"
  by (simp add: find_None_iff)

lemma find_in_set: "find P xs = Some x \<Longrightarrow> x \<in> set xs"
  by (auto simp: find_Some_iff)

lemma find_indexed_first:
  "k < length xs \<Longrightarrow> p (xs ! k) (i + k) \<Longrightarrow> (\<forall>j<k. \<not> p (xs ! j) (i + j))
     \<Longrightarrow> find_indexed p xs i = Some (xs ! k)"
proof (induction xs arbitrary: i k)
  case Nil
  then show ?case by simp
next
  case (Cons x xs)
  show ?case
  proof (cases k)
    case 0
    then show ?thesis using Cons.prems by simp
  next
    case (Suc k')
    have "\<not> p x i" using Cons.prems(3) Suc by fastforce
    moreover have "find_indexed p xs (Suc i) = Some (xs ! k')"
    proof (rule Cons.IH)
      show "k' < length xs" using Cons.prems(1) Suc by simp
      show "p (xs ! k') (Suc i + k')" using Cons.prems(2) Suc by simp
      show "\<forall>j<k'. \<not> p (xs ! j) (Suc i + j)"
      proof (intro allI impI)
        fix j assume "j < k'"
        then have "\<not> p ((x # xs) ! Suc j) (i + Suc j)" using Cons.prems(3) Suc by blast
        then show "\<not> p (xs ! j) (Suc i + j)" by simp
      qed
    qed
    ultimately show ?thesis using Suc by simp
  qed
qed

lemma find_indexed_none:
  "(\<forall>x\<in>set xs. \<forall>j. \<not> p x j) \<Longrightarrow> find_indexed p xs i = None"
  by (induction xs arbitrary: i) simp_all

lemma find_indexed_in_set:
  "find_indexed p xs i = Some x \<Longrightarrow> x \<in> set xs"
  by (induction xs arbitrary: i) (auto split: if_splits)

lemma js_gt_not_le: "js_gt g b \<Longrightarrow> a \<le> b \<Longrightarrow> \<not> js_le g a"
  by (cases g) simp_all

lemma emptyContainer_eq:
  "emptyContainer = \<lparr>svg_size = Some (32, 32), svg_viewbox = None, svg_children = []\<rparr>"
  by (simp add: emptyContainer_def size_svg_def svgjs_def CONTAINER_SIZE_def)

lemma searchRenderer_classBreaks_unfold:
  assumes "type r = CLASS_BREAKS"
  shows "searchRenderer bi attributes r =
     (if js_lt (parseFloat bi (attributes (key_of (field r)))) (minValue r) then
        ([], Inr (orEmpty (defaultsvgcode r), defaultSymbol r))
      else
        (case find_indexed
                 (\<lambda>cbi index. js_gt (parseFloat bi (attributes (key_of (field r))))
                                  ((minusOne bi (minValue r) # map classMaxValue (classBreakInfos r)) ! index)
                               \<and> js_le (parseFloat bi (attributes (key_of (field r)))) (classMaxValue cbi))
                 (classBreakInfos r) 0 of
           None \<Rightarrow> ([], Inr (orEmpty (defaultsvgcode r), defaultSymbol r))
         | Some cbi \<Rightarrow> ([], Inr (orEmpty (svgcode cbi), symbol cbi))))"
  using assms by (simp add: searchRenderer_def renderer_types_distinct Let_def)

subsection \<open>Unique value renderers\<close>

text \<open>
  C1, as the code has it. Under a unique value renderer and attributes that define the
  renderer's first field, \<open>searchRenderer\<close> returns the icon and the symbol of the first
  unique value info whose stored value equals the composite key (the first field as a
  string, \<open>null\<close> as the empty string, then \<open>", "\<close> and the second field when it is
  configured, then \<open>", "\<close> and the third field when it is configured as well); when no
  value equals the key it returns the default icon and symbol. An icon that was never
  attached is replaced by the empty container. \<open>getGraphicIcon\<close> and \<open>getGraphicSymbol\<close>
  return the two components.
\<close>

theorem searchRenderer_uniqueValue_match:
  assumes "type r = UNIQUE_VALUE"
    and "attributes (key_of (field1 r)) \<noteq> JUndefined"
  shows "(\<forall>i<length (uniqueValueInfos r).
            value (uniqueValueInfos r ! i) = compositeKey_spec bi attributes r
            \<and> (\<forall>j<i. value (uniqueValueInfos r ! j) \<noteq> compositeKey_spec bi attributes r)
            \<longrightarrow> searchRenderer bi attributes r =
                  ([], Inr (orEmpty (svgcode (uniqueValueInfos r ! i)), symbol (uniqueValueInfos r ! i)))
               \<and> getGraphicIcon bi attributes r = Inr (orEmpty (svgcode (uniqueValueInfos r ! i)))
               \<and> getGraphicSymbol bi attributes r = Inr (symbol (uniqueValueInfos r ! i)))
       \<and> ((\<forall>u\<in>set (uniqueValueInfos r). value u \<noteq> compositeKey_spec bi attributes r)
            \<longrightarrow> searchRenderer bi attributes r =
                  ([], Inr (orEmpty (defaultsvgcode r), defaultSymbol r))
               \<and> getGraphicIcon bi attributes r = Inr (orEmpty (defaultsvgcode r))
               \<and> getGraphicSymbol bi attributes r = Inr (defaultSymbol r))"
proof -
  let ?K = "compositeKey_spec bi attributes r"
  have key: "graphicKey bi attributes r = Inr ?K"
    using assms(2) by (rule graphicKey_defined)
  have sr: "searchRenderer bi attributes r =
      (case find (\<lambda>uvi. value uvi = ?K) (uniqueValueInfos r) of
         Some uvi \<Rightarrow> ([], Inr (orEmpty (svgcode uvi), symbol uvi))
       | None \<Rightarrow> ([], Inr (orEmpty (defaultsvgcode r), defaultSymbol r)))"
    using assms(1) key by (simp add: searchRenderer_def renderer_types_distinct)
  have hit: "searchRenderer bi attributes r =
                  ([], Inr (orEmpty (svgcode (uniqueValueInfos r ! i)), symbol (uniqueValueInfos r ! i)))"
    if "i < length (uniqueValueInfos r)" "value (uniqueValueInfos r ! i) = ?K"
       "\<forall>j<i. value (uniqueValueInfos r ! j) \<noteq> ?K" for i
  proof -
    have "find (\<lambda>uvi. value uvi = ?K) (uniqueValueInfos r) = Some (uniqueValueInfos r ! i)"
      using that by (intro find_first_index) simp_all
    then show ?thesis by (simp add: sr)
  qed
  have miss: "searchRenderer bi attributes r = ([], Inr (orEmpty (defaultsvgcode r), defaultSymbol r))"
    if "\<forall>u\<in>set (uniqueValueInfos r). value u \<noteq> ?K"
  proof -
    have "find (\<lambda>uvi. value uvi = ?K) (uniqueValueInfos r) = None"
      using that by (intro find_none) simp
    then show ?thesis by (simp add: sr)
  qed
  show ?thesis
    using hit miss by (simp add: getGraphicIcon_def getGraphicSymbol_def)
qed

theorem searchRenderer_uniqueValue_match_witness:
  "\<forall>bi. type example_uniqueValue = UNIQUE_VALUE
     \<and> example_attributes (key_of (field1 example_uniqueValue)) \<noteq> JUndefined
     \<and> compositeKey_spec bi example_attributes example_uniqueValue = ''lake, small''
     \<and> searchRenderer bi example_attributes example_uniqueValue
         = ([], Inr (example_icon ''a.png'', Sym 1))
     \<and> getGraphicIcon bi example_attributes example_uniqueValue = Inr (example_icon ''a.png'')"
proof
  fix bi
  have h: "type example_uniqueValue = UNIQUE_VALUE"
    "example_attributes (key_of (field1 example_uniqueValue)) \<noteq> JUndefined"
    by (simp_all add: UNIQUE_VALUE_def key_of_def)
  have k: "compositeKey_spec bi example_attributes example_uniqueValue = ''lake, small''"
    by (simp add: compositeKey_spec_def key_of_def truthy_def)
  from searchRenderer_uniqueValue_match
         [where r = example_uniqueValue and attributes = example_attributes and bi = bi, OF h]
  have "searchRenderer bi example_attributes example_uniqueValue
         = ([], Inr (orEmpty (svgcode (uniqueValueInfos example_uniqueValue ! 0)),
                     symbol (uniqueValueInfos example_uniqueValue ! 0)))
     \<and> getGraphicIcon bi example_attributes example_uniqueValue
         = Inr (orEmpty (svgcode (uniqueValueInfos example_uniqueValue ! 0)))"
    unfolding k by (elim conjE allE [of _ 0]) simp
  then show "type example_uniqueValue = UNIQUE_VALUE
     \<and> example_attributes (key_of (field1 example_uniqueValue)) \<noteq> JUndefined
     \<and> compositeKey_spec bi example_attributes example_uniqueValue = ''lake, small''
     \<and> searchRenderer bi example_attributes example_uniqueValue
         = ([], Inr (example_icon ''a.png'', Sym 1))
     \<and> getGraphicIcon bi example_attributes example_uniqueValue = Inr (example_icon ''a.png'')"
    using h k by (simp add: orEmpty_def)
qed

text \<open>
  C1, as stated for every attribute mapping and every configured field, fails twice.
  When the attributes do not define the first field, \<open>graphicKey.toString()\<close> is called
  on \<open>undefined\<close> and throws: no icon is returned, not even the default. And a third
  field that is configured without a second one is never appended: for the feature
  (lake, small) the key is \<open>lake\<close>, not \<open>lake, small\<close>.
\<close>

theorem searchRenderer_uniqueValue_counterexample:
  "(\<forall>bi. searchRenderer bi ((\<lambda>k. JUndefined)(''SIZE'' := JString ''small'')) example_uniqueValue
          = ([], Inl TypeError))
   \<and> (\<forall>bi. searchRenderer bi example_attributes
              (example_uniqueValue\<lparr>field2 := None, field3 := Some ''SIZE''\<rparr>)
          = ([], Inr (example_icon ''c.png'', Sym 3)))"
  by (simp add: searchRenderer_def graphicKey_def SIMPLE_def UNIQUE_VALUE_def key_of_def truthy_def
      orEmpty_def Let_def)

text \<open>
  C10, as the code has it. The renderer has a second field configured, and the
  attributes hold a value, possibly \<open>null\<close>, for the first field. Then the first part of
  the key is empty for \<open>null\<close> and the printed value otherwise, while a \<open>null\<close> in the
  second field, or in the third field when that is configured too, is concatenated as
  the text \<open>null\<close>.
\<close>

theorem graphicKey_null_second_third_field:
  assumes "truthy (field2 r)"
    and "attributes (key_of (field1 r)) \<noteq> JUndefined"
  shows "\<exists>k1. (attributes (key_of (field1 r)) = JNull \<longrightarrow> k1 = [])
          \<and> (attributes (key_of (field1 r)) \<noteq> JNull \<longrightarrow> k1 = ToString bi (attributes (key_of (field1 r))))
          \<and> (attributes (key_of (field2 r)) = JNull \<and> \<not> truthy (field3 r)
               \<longrightarrow> graphicKey bi attributes r = Inr (k1 @ '', null''))
          \<and> (attributes (key_of (field2 r)) = JNull \<and> truthy (field3 r)
               \<longrightarrow> graphicKey bi attributes r
                     = Inr (k1 @ '', null, '' @ ToString bi (attributes (key_of (field3 r)))))
          \<and> (truthy (field3 r) \<and> attributes (key_of (field3 r)) = JNull
               \<longrightarrow> graphicKey bi attributes r
                     = Inr (k1 @ '', '' @ ToString bi (attributes (key_of (field2 r))) @ '', null''))"
proof -
  have "graphicKey bi attributes r = Inr (compositeKey_spec bi attributes r)"
    using assms(2) by (rule graphicKey_defined)
  then show ?thesis using assms(1)
    by (intro exI [of _ "if attributes (key_of (field1 r)) = JNull then []
                         else ToString bi (attributes (key_of (field1 r)))"])
       (simp add: compositeKey_spec_def)
qed

theorem graphicKey_null_second_third_field_witness:
  "\<forall>bi. truthy (field2 example_uniqueValue)
     \<and> ((\<lambda>k. JUndefined)(''KIND'' := JString ''a'', ''SIZE'' := JNull)) (key_of (field1 example_uniqueValue))
          \<noteq> JUndefined
     \<and> graphicKey bi ((\<lambda>k. JUndefined)(''KIND'' := JString ''a'', ''SIZE'' := JNull)) example_uniqueValue
          = Inr ''a, null''"
proof
  fix bi
  let ?a = "(\<lambda>k. JUndefined)(''KIND'' := JString ''a'', ''SIZE'' := JNull)"
  have h: "truthy (field2 example_uniqueValue)" "?a (key_of (field1 example_uniqueValue)) \<noteq> JUndefined"
    by (simp_all add: truthy_def key_of_def)
  from graphicKey_null_second_third_field [where r = example_uniqueValue and attributes = ?a and bi = bi, OF h]
  obtain k1 where k:
    "?a (key_of (field1 example_uniqueValue)) \<noteq> JNull
       \<longrightarrow> k1 = ToString bi (?a (key_of (field1 example_uniqueValue)))"
    "?a (key_of (field2 example_uniqueValue)) = JNull \<and> \<not> truthy (field3 example_uniqueValue)
       \<longrightarrow> graphicKey bi ?a example_uniqueValue = Inr (k1 @ '', null'')"
    by blast
  have "k1 = ''a''" using k(1) by (simp add: key_of_def)
  moreover have "graphicKey bi ?a example_uniqueValue = Inr (k1 @ '', null'')"
    using k(2) by (simp add: key_of_def truthy_def)
  ultimately have "graphicKey bi ?a example_uniqueValue = Inr ''a, null''" by simp
  then show "truthy (field2 example_uniqueValue)
     \<and> ?a (key_of (field1 example_uniqueValue)) \<noteq> JUndefined
     \<and> graphicKey bi ?a example_uniqueValue = Inr ''a, null''"
    using h by blast
qed

text \<open>
  C10, as stated for a renderer with the third field configured, fails: line 114 reads
  the third field only inside the test of the second (line 112). With the third field
  \<open>SIZE\<close> configured and no second field, a \<open>null\<close> in \<open>SIZE\<close> leaves no text \<open>null\<close> in
  the key: the key of the feature (a, null) is \<open>a\<close>.
\<close>

theorem graphicKey_third_field_alone_counterexample:
  "\<forall>bi. field3 (example_uniqueValue\<lparr>field2 := None, field3 := Some ''SIZE''\<rparr>) = Some ''SIZE''
     \<and> ((\<lambda>k. JUndefined)(''KIND'' := JString ''a'', ''SIZE'' := JNull)) ''SIZE'' = JNull
     \<and> graphicKey bi ((\<lambda>k. JUndefined)(''KIND'' := JString ''a'', ''SIZE'' := JNull))
           (example_uniqueValue\<lparr>field2 := None, field3 := Some ''SIZE''\<rparr>)
         = Inr ''a''"
  by (simp add: graphicKey_def key_of_def truthy_def Let_def)

subsection \<open>Class breaks renderers\<close>

text \<open>
  C2, as the code has it. Under a class breaks renderer whose upper bounds ascend
  strictly and whose minimum is small enough for \<open>minimum - 1\<close>, as double precision
  computes it, to lie below the minimum; with the value that \<open>parseFloat\<close> reads from the
  attribute: a value below the minimum gives the default icon and symbol; a value equal
  to the upper bound of a class break info, and not below the minimum, gives that info
  (the intervals are closed on the right, the first one opens at \<open>minimum - 1\<close>); a value
  above the last upper bound gives the default.
\<close>

theorem searchRenderer_classBreaks_intervals:
  assumes "type r = CLASS_BREAKS"
    and "sorted_wrt (<) (map classMaxValue (classBreakInfos r))"
    and "minusOne bi (minValue r) < minValue r"
  shows "(js_lt (parseFloat bi (attributes (key_of (field r)))) (minValue r)
            \<longrightarrow> searchRenderer bi attributes r = ([], Inr (orEmpty (defaultsvgcode r), defaultSymbol r)))
       \<and> (\<forall>k<length (classBreakInfos r).
            parseFloat bi (attributes (key_of (field r))) = Fin (classMaxValue (classBreakInfos r ! k))
            \<and> minValue r \<le> classMaxValue (classBreakInfos r ! k)
            \<longrightarrow> searchRenderer bi attributes r =
                  ([], Inr (orEmpty (svgcode (classBreakInfos r ! k)), symbol (classBreakInfos r ! k))))
       \<and> (classBreakInfos r \<noteq> []
            \<and> js_gt (parseFloat bi (attributes (key_of (field r)))) (classMaxValue (last (classBreakInfos r)))
            \<longrightarrow> searchRenderer bi attributes r = ([], Inr (orEmpty (defaultsvgcode r), defaultSymbol r)))"
proof -
  let ?g = "parseFloat bi (attributes (key_of (field r)))"
  let ?bs = "classBreakInfos r"
  let ?minSplits = "minusOne bi (minValue r) # map classMaxValue ?bs"
  let ?p = "\<lambda>cbi index. js_gt ?g (?minSplits ! index) \<and> js_le ?g (classMaxValue cbi)"
  note sr = searchRenderer_classBreaks_unfold [OF assms(1), of bi attributes]
  have asc: "classMaxValue (?bs ! i) < classMaxValue (?bs ! j)" if "i < j" "j < length ?bs" for i j
  proof -
    have "map classMaxValue ?bs ! i < map classMaxValue ?bs ! j"
      using assms(2) that by (simp only: sorted_wrt_iff_nth_less length_map)
    then show ?thesis using that by simp
  qed
  have below: "searchRenderer bi attributes r = ([], Inr (orEmpty (defaultsvgcode r), defaultSymbol r))"
    if "js_lt ?g (minValue r)"
    using that by (simp add: sr)
  have bound: "searchRenderer bi attributes r =
                  ([], Inr (orEmpty (svgcode (?bs ! k)), symbol (?bs ! k)))"
    if k: "k < length ?bs" and g: "?g = Fin (classMaxValue (?bs ! k))"
      and lo: "minValue r \<le> classMaxValue (?bs ! k)" for k
  proof -
    have nlt: "\<not> js_lt ?g (minValue r)" using g lo by simp
    have here: "?p (?bs ! k) (0 + k)"
    proof (cases k)
      case 0
      then show ?thesis using g lo assms(3) by simp
    next
      case (Suc k')
      have "classMaxValue (?bs ! k') < classMaxValue (?bs ! k)" using asc [of k' k] Suc k by simp
      then show ?thesis using g Suc k by simp
    qed
    have before: "\<forall>j<k. \<not> ?p (?bs ! j) (0 + j)"
    proof (intro allI impI)
      fix j assume "j < k"
      then have "classMaxValue (?bs ! j) < classMaxValue (?bs ! k)" using asc k by simp
      then show "\<not> ?p (?bs ! j) (0 + j)" using g by simp
    qed
    have "find_indexed ?p ?bs 0 = Some (?bs ! k)"
      using k here before by (rule find_indexed_first)
    then show ?thesis using nlt by (simp add: sr)
  qed
  have above: "searchRenderer bi attributes r = ([], Inr (orEmpty (defaultsvgcode r), defaultSymbol r))"
    if ne: "?bs \<noteq> []" and gt: "js_gt ?g (classMaxValue (last ?bs))"
  proof -
    have "\<forall>x\<in>set ?bs. \<forall>j. \<not> ?p x j"
    proof (intro ballI allI)
      fix x j assume "x \<in> set ?bs"
      then obtain i where i: "i < length ?bs" "x = ?bs ! i" by (auto simp: in_set_conv_nth)
      have "classMaxValue (?bs ! i) \<le> classMaxValue (?bs ! (length ?bs - 1))"
      proof (cases "i = length ?bs - 1")
        case True
        then show ?thesis by simp
      next
        case False
        then have "classMaxValue (?bs ! i) < classMaxValue (?bs ! (length ?bs - 1))"
          using asc [of i "length ?bs - 1"] i(1) by simp
        then show ?thesis by simp
      qed
      then have "classMaxValue x \<le> classMaxValue (last ?bs)"
        using i(2) ne by (simp add: last_conv_nth)
      then have "\<not> js_le ?g (classMaxValue x)" using gt js_gt_not_le by blast
      then show "\<not> ?p x j" by simp
    qed
    then have "find_indexed ?p ?bs 0 = None" by (rule find_indexed_none)
    then show ?thesis by (simp add: sr)
  qed
  show ?thesis using below bound above by blast
qed

theorem searchRenderer_classBreaks_intervals_witness:
  "\<forall>nts pfs.
     type (example_classBreaks 0) = CLASS_BREAKS
     \<and> sorted_wrt (<) (map classMaxValue (classBreakInfos (example_classBreaks 0)))
     \<and> minusOne \<lparr>numberToString = nts, parseFloatString = pfs, minusOne = (\<lambda>x. x - 1)\<rparr>
           (minValue (example_classBreaks 0)) < minValue (example_classBreaks 0)
     \<and> searchRenderer \<lparr>numberToString = nts, parseFloatString = pfs, minusOne = (\<lambda>x. x - 1)\<rparr>
           ((\<lambda>k. JUndefined)(''POP'' := JNumber (Fin (-1)))) (example_classBreaks 0)
          = ([], Inr (example_icon ''d.png'', Sym 0))
     \<and> searchRenderer \<lparr>numberToString = nts, parseFloatString = pfs, minusOne = (\<lambda>x. x - 1)\<rparr>
           ((\<lambda>k. JUndefined)(''POP'' := JNumber (Fin 9.5))) (example_classBreaks 0)
          = ([], Inr (example_icon ''a.png'', Sym 1))
     \<and> searchRenderer \<lparr>numberToString = nts, parseFloatString = pfs, minusOne = (\<lambda>x. x - 1)\<rparr>
           ((\<lambda>k. JUndefined)(''POP'' := JNumber (Fin 21))) (example_classBreaks 0)
          = ([], Inr (example_icon ''d.png'', Sym 0))"
proof (intro allI)
  fix nts pfs
  define bi where "bi = \<lparr>numberToString = nts, parseFloatString = pfs, minusOne = (\<lambda>x. x - 1)\<rparr>"
  have h: "type (example_classBreaks 0) = CLASS_BREAKS"
    "sorted_wrt (<) (map classMaxValue (classBreakInfos (example_classBreaks 0)))"
    "minusOne bi (minValue (example_classBreaks 0)) < minValue (example_classBreaks 0)"
    by (simp_all add: CLASS_BREAKS_def bi_def)
  note t = searchRenderer_classBreaks_intervals [where r = "example_classBreaks 0" and bi = bi, OF h]
  have below: "searchRenderer bi ((\<lambda>k. JUndefined)(''POP'' := JNumber (Fin (-1)))) (example_classBreaks 0)
          = ([], Inr (example_icon ''d.png'', Sym 0))"
    using t [of "(\<lambda>k. JUndefined)(''POP'' := JNumber (Fin (-1)))"]
    by (simp add: key_of_def orEmpty_def)
  have bound: "searchRenderer bi ((\<lambda>k. JUndefined)(''POP'' := JNumber (Fin 9.5))) (example_classBreaks 0)
          = ([], Inr (example_icon ''a.png'', Sym 1))"
    using t [of "(\<lambda>k. JUndefined)(''POP'' := JNumber (Fin 9.5))"]
    by (elim conjE allE [of _ 0]) (simp add: key_of_def orEmpty_def)
  have above: "searchRenderer bi ((\<lambda>k. JUndefined)(''POP'' := JNumber (Fin 21))) (example_classBreaks 0)
          = ([], Inr (example_icon ''d.png'', Sym 0))"
    using t [of "(\<lambda>k. JUndefined)(''POP'' := JNumber (Fin 21))"]
    by (simp add: key_of_def orEmpty_def)
  show "type (example_classBreaks 0) = CLASS_BREAKS
     \<and> sorted_wrt (<) (map classMaxValue (classBreakInfos (example_classBreaks 0)))
     \<and> minusOne \<lparr>numberToString = nts, parseFloatString = pfs, minusOne = (\<lambda>x. x - 1)\<rparr>
           (minValue (example_classBreaks 0)) < minValue (example_classBreaks 0)
     \<and> searchRenderer \<lparr>numberToString = nts, parseFloatString = pfs, minusOne = (\<lambda>x. x - 1)\<rparr>
           ((\<lambda>k. JUndefined)(''POP'' := JNumber (Fin (-1)))) (example_classBreaks 0)
          = ([], Inr (example_icon ''d.png'', Sym 0))
     \<and> searchRenderer \<lparr>numberToString = nts, parseFloatString = pfs, minusOne = (\<lambda>x. x - 1)\<rparr>
           ((\<lambda>k. JUndefined)(''POP'' := JNumber (Fin 9.5))) (example_classBreaks 0)
          = ([], Inr (example_icon ''a.png'', Sym 1))
     \<and> searchRenderer \<lparr>numberToString = nts, parseFloatString = pfs, minusOne = (\<lambda>x. x - 1)\<rparr>
           ((\<lambda>k. JUndefined)(''POP'' := JNumber (Fin 21))) (example_classBreaks 0)
          = ([], Inr (example_icon ''d.png'', Sym 0))"
    using h below bound above unfolding bi_def by blast
qed

text \<open>
  C2, as stated, fails where an upper bound lies below the minimum: with the minimum 10
  and the upper bounds 9.5 and 20, the value 9.5 equals the first upper bound, but the
  test \<open>gVal < lower\<close> comes first and the default is returned.
\<close>

theorem searchRenderer_classBreaks_counterexample:
  "\<forall>bi. sorted_wrt (<) (map classMaxValue (classBreakInfos (example_classBreaks 10)))
     \<and> parseFloat bi (((\<lambda>k. JUndefined)(''POP'' := JNumber (Fin 9.5))) (key_of (field (example_classBreaks 10))))
          = Fin (classMaxValue (classBreakInfos (example_classBreaks 10) ! 0))
     \<and> searchRenderer bi ((\<lambda>k. JUndefined)(''POP'' := JNumber (Fin 9.5))) (example_classBreaks 10)
          = ([], Inr (example_icon ''d.png'', Sym 0))
     \<and> searchRenderer bi ((\<lambda>k. JUndefined)(''POP'' := JNumber (Fin 9.5))) (example_classBreaks 10)
          \<noteq> ([], Inr (orEmpty (svgcode (classBreakInfos (example_classBreaks 10) ! 0)),
                        symbol (classBreakInfos (example_classBreaks 10) ! 0)))"
  by (simp add: searchRenderer_def SIMPLE_def UNIQUE_VALUE_def CLASS_BREAKS_def key_of_def
      orEmpty_def Let_def)

text \<open>
  The condition on the minimum is needed. Where double precision rounds \<open>minimum - 1\<close>
  to the minimum itself (as it does at \<open>2^54\<close>), a value equal to the minimum and to the
  upper bound of the only class break info falls outside the first interval, and the
  default is returned.
\<close>

lemma searchRenderer_classBreaks_rounding:
  assumes "type r = CLASS_BREAKS"
    and "classBreakInfos r = [cbi]" and "classMaxValue cbi = minValue r"
    and "minusOne bi (minValue r) = minValue r"
    and "parseFloat bi (attributes (key_of (field r))) = Fin (minValue r)"
  shows "searchRenderer bi attributes r = ([], Inr (orEmpty (defaultsvgcode r), defaultSymbol r))"
  using assms(2,3,4,5) by (simp add: searchRenderer_classBreaks_unfold [OF assms(1)])

subsection \<open>Every renderer\<close>

text \<open>
  Away from a unique value renderer whose first field the attributes leave undefined,
  \<open>searchRenderer\<close> returns a pair. Its icon is one of the icons attached to the
  renderer, or the empty container of 32 by 32 when the place it was read from holds
  none; so \<open>getGraphicIcon\<close> does not return \<open>undefined\<close> there. A renderer of a type
  other than the three known ones gives the empty container, the empty object as symbol,
  and one warning.
\<close>

lemma searchRenderer_returns_pair:
  assumes "type r = UNIQUE_VALUE \<longrightarrow> attributes (key_of (field1 r)) \<noteq> JUndefined"
  shows "\<exists>chosen symb.
           snd (searchRenderer bi attributes r) = Inr (orEmpty chosen, symb)
         \<and> getGraphicIcon bi attributes r = Inr (orEmpty chosen)
         \<and> getGraphicSymbol bi attributes r = Inr symb
         \<and> (chosen = None
            \<or> chosen \<in> {svgcode r, defaultsvgcode r}
                 \<union> svgcode ` set (uniqueValueInfos r) \<union> svgcode ` set (classBreakInfos r))
         \<and> orEmpty None = Markup \<lparr>svg_size = Some (32, 32), svg_viewbox = None, svg_children = []\<rparr>
         \<and> (type r \<noteq> SIMPLE \<and> type r \<noteq> UNIQUE_VALUE \<and> type r \<noteq> CLASS_BREAKS
              \<longrightarrow> chosen = None \<and> symb = SymEmpty
                  \<and> fst (searchRenderer bi attributes r)
                      = [''Unknown renderer type encountered - '' @ type r])"
proof -
  have e: "orEmpty None = Markup \<lparr>svg_size = Some (32, 32), svg_viewbox = None, svg_children = []\<rparr>"
    by (simp add: orEmpty_def emptyContainer_eq)
  have goal: "\<exists>chosen symb.
           snd (searchRenderer bi attributes r) = Inr (orEmpty chosen, symb)
         \<and> (chosen = None
            \<or> chosen \<in> {svgcode r, defaultsvgcode r}
                 \<union> svgcode ` set (uniqueValueInfos r) \<union> svgcode ` set (classBreakInfos r))
         \<and> (type r \<noteq> SIMPLE \<and> type r \<noteq> UNIQUE_VALUE \<and> type r \<noteq> CLASS_BREAKS
              \<longrightarrow> chosen = None \<and> symb = SymEmpty
                  \<and> fst (searchRenderer bi attributes r)
                      = [''Unknown renderer type encountered - '' @ type r])"
  proof -
    consider (simple) "type r = SIMPLE" | (uv) "type r = UNIQUE_VALUE" | (cb) "type r = CLASS_BREAKS"
      | (other) "type r \<noteq> SIMPLE" "type r \<noteq> UNIQUE_VALUE" "type r \<noteq> CLASS_BREAKS"
      by blast
    then show ?thesis
    proof cases
      case simple
      then have "snd (searchRenderer bi attributes r) = Inr (orEmpty (svgcode r), symbol r)"
        by (simp add: searchRenderer_def)
      then show ?thesis using simple
        by (intro exI [of _ "svgcode r"] exI [of _ "symbol r"]) simp
    next
      case uv
      then have key: "graphicKey bi attributes r = Inr (compositeKey_spec bi attributes r)"
        using assms graphicKey_defined by blast
      show ?thesis
      proof (cases "find (\<lambda>uvi. value uvi = compositeKey_spec bi attributes r) (uniqueValueInfos r)")
        case None
        then have "snd (searchRenderer bi attributes r) = Inr (orEmpty (defaultsvgcode r), defaultSymbol r)"
          using uv key by (simp add: searchRenderer_def renderer_types_distinct)
        then show ?thesis using uv
          by (intro exI [of _ "defaultsvgcode r"] exI [of _ "defaultSymbol r"]) simp
      next
        case (Some u)
        then have "snd (searchRenderer bi attributes r) = Inr (orEmpty (svgcode u), symbol u)"
          using uv key by (simp add: searchRenderer_def renderer_types_distinct)
        moreover have "u \<in> set (uniqueValueInfos r)" using Some by (rule find_in_set)
        ultimately show ?thesis using uv
          by (intro exI [of _ "svgcode u"] exI [of _ "symbol u"]) simp
      qed
    next
      case cb
      note sr = searchRenderer_classBreaks_unfold [OF cb, of bi attributes]
      let ?p = "\<lambda>cbi index. js_gt (parseFloat bi (attributes (key_of (field r))))
                                  ((minusOne bi (minValue r) # map classMaxValue (classBreakInfos r)) ! index)
                               \<and> js_le (parseFloat bi (attributes (key_of (field r)))) (classMaxValue cbi)"
      show ?thesis
      proof (cases "js_lt (parseFloat bi (attributes (key_of (field r)))) (minValue r)
                    \<or> find_indexed ?p (classBreakInfos r) 0 = None")
        case True
        then have "snd (searchRenderer bi attributes r) = Inr (orEmpty (defaultsvgcode r), defaultSymbol r)"
          by (auto simp: sr)
        then show ?thesis using cb
          by (intro exI [of _ "defaultsvgcode r"] exI [of _ "defaultSymbol r"]) simp
      next
        case False
        then obtain c where c: "find_indexed ?p (classBreakInfos r) 0 = Some c" by auto
        then have "snd (searchRenderer bi attributes r) = Inr (orEmpty (svgcode c), symbol c)"
          using False by (simp add: sr)
        moreover have "c \<in> set (classBreakInfos r)" using c by (rule find_indexed_in_set)
        ultimately show ?thesis using cb
          by (intro exI [of _ "svgcode c"] exI [of _ "symbol c"]) simp
      qed
    next
      case other
      then have "searchRenderer bi attributes r =
          ([''Unknown renderer type encountered - '' @ type r], Inr (Markup emptyContainer, SymEmpty))"
        by (simp add: searchRenderer_def)
      then show ?thesis using other
        by (intro exI [of _ None] exI [of _ SymEmpty]) (simp add: orEmpty_def)
    qed
  qed
  then obtain chosen symb where
    "snd (searchRenderer bi attributes r) = Inr (orEmpty chosen, symb)"
    "chosen = None \<or> chosen \<in> {svgcode r, defaultsvgcode r}
                 \<union> svgcode ` set (uniqueValueInfos r) \<union> svgcode ` set (classBreakInfos r)"
    "type r \<noteq> SIMPLE \<and> type r \<noteq> UNIQUE_VALUE \<and> type r \<noteq> CLASS_BREAKS
              \<longrightarrow> chosen = None \<and> symb = SymEmpty
                  \<and> fst (searchRenderer bi attributes r)
                      = [''Unknown renderer type encountered - '' @ type r]"
    by blast
  then show ?thesis using e
    by (intro exI [of _ chosen] exI [of _ symb]) (simp add: getGraphicIcon_def getGraphicSymbol_def)
qed

text \<open>A renderer of the type \<open>heatmap\<close>: the empty container, the empty symbol, one warning.\<close>

lemma searchRenderer_unknown_type_example:
  "searchRenderer bi example_attributes (example_uniqueValue\<lparr>type := ''heatmap''\<rparr>)
     = ([''Unknown renderer type encountered - heatmap''],
        Inr (Markup \<lparr>svg_size = Some (32, 32), svg_viewbox = None, svg_children = []\<rparr>, SymEmpty))"
  by (simp add: searchRenderer_def SIMPLE_def UNIQUE_VALUE_def CLASS_BREAKS_def emptyContainer_eq)

text \<open>
  C4, at the input where the code departs from it. Under a unique value renderer over
  the fields \<open>KIND\<close> and \<open>SIZE\<close>, a feature that only has an \<open>OBJECTID\<close> makes
  \<open>searchRenderer\<close>, \<open>getGraphicIcon\<close> and \<open>getGraphicSymbol\<close> throw a \<open>TypeError\<close>: line
  105 replaces a \<open>null\<close> value of the first field by the empty string, and line 108 calls
  \<open>toString\<close> on a value that is \<open>undefined\<close>. A feature whose \<open>KIND\<close> is \<open>null\<close> and
  whose \<open>SIZE\<close> is missing gets the pair of the default, its icon the empty container.
\<close>

theorem searchRenderer_missing_attribute_throws:
  "\<forall>bi. snd (searchRenderer bi ((\<lambda>k. JUndefined)(''OBJECTID'' := JNumber (Fin 7))) example_uniqueValue)
           = Inl TypeError
     \<and> getGraphicIcon bi ((\<lambda>k. JUndefined)(''OBJECTID'' := JNumber (Fin 7))) example_uniqueValue
           = Inl TypeError
     \<and> getGraphicSymbol bi ((\<lambda>k. JUndefined)(''OBJECTID'' := JNumber (Fin 7))) example_uniqueValue
           = Inl TypeError
     \<and> searchRenderer bi ((\<lambda>k. JUndefined)(''KIND'' := JNull)) example_uniqueValue
           = ([], Inr (Markup \<lparr>svg_size = Some (32, 32), svg_viewbox = None, svg_children = []\<rparr>, Sym 0))"
  by (simp add: getGraphicIcon_def getGraphicSymbol_def searchRenderer_def graphicKey_def
      SIMPLE_def UNIQUE_VALUE_def key_of_def truthy_def orEmpty_def emptyContainer_eq Let_def)

section \<open>Properties of enhanceRenderer\<close>

lemma setProperty_same: "k \<noteq> ''__proto__'' \<Longrightarrow> setProperty obj k v k = Some v"
  by (simp add: setProperty_def)

lemma setProperty_other: "k \<noteq> k' \<Longrightarrow> setProperty obj k v k' = obj k'"
  by (simp add: setProperty_def)

lemma getProperty_own: "obj k = Some v \<Longrightarrow> getProperty obj k = map_option Markup v"
  by (simp add: getProperty_def)

text \<open>When every legend item resolved with an entry, the callbacks build a lookup.\<close>

lemma legendItemCallbacks_resolved:
  assumes "\<forall>item\<in>set items. \<exists>d. outcome item = Inr (Some d)"
  shows "\<exists>lk. legendItemCallbacks items lk0 = Inr lk"
  using assms
proof (induction items arbitrary: lk0)
  case Nil
  then show ?case by simp
next
  case (Cons item items)
  then obtain d where d: "outcome item = Inr (Some d)" by auto
  have "\<exists>lk. legendItemCallbacks items (setProperty lk0 (key_of (label d)) (svgcode d)) = Inr lk"
    using Cons.prems by (intro Cons.IH) simp
  then show ?case using d by simp
qed

text \<open>And only then: a rejected item, or one that resolved with \<open>undefined\<close>, ends them.\<close>

lemma legendItemCallbacks_returns:
  assumes "legendItemCallbacks items lk0 = Inr lk"
  shows "\<forall>item\<in>set items. \<exists>d. outcome item = Inr (Some d)"
  using assms
proof (induction items arbitrary: lk0)
  case Nil
  then show ?case by simp
next
  case (Cons item items)
  from Cons.prems obtain d where d: "outcome item = Inr (Some d)"
    and rest: "legendItemCallbacks items (setProperty lk0 (key_of (label d)) (svgcode d)) = Inr lk"
    by (auto split: sum.splits option.splits)
  from Cons.IH [OF rest] d show ?case by simp
qed

text \<open>
  The entry whose callback ran last for a label is the one the lookup keeps as its own
  property, unless the label is \<open>__proto__\<close>.
\<close>

lemma legendItemCallbacks_last:
  assumes "legendItemCallbacks items lk0 = Inr lk"
    and "j < length items" and "outcome (items ! j) = Inr (Some dj)"
    and "\<forall>k d. j < k \<and> k < length items \<and> outcome (items ! k) = Inr (Some d)
           \<longrightarrow> key_of (label d) \<noteq> key_of (label dj)"
    and "key_of (label dj) \<noteq> ''__proto__''"
  shows "lk (key_of (label dj)) = Some (svgcode dj)"
  using assms
proof (induction items arbitrary: lk0 j)
  case Nil
  then show ?case by simp
next
  case (Cons item items)
  from Cons.prems(1) obtain d where d: "outcome item = Inr (Some d)"
    and rest: "legendItemCallbacks items (setProperty lk0 (key_of (label d)) (svgcode d)) = Inr lk"
    by (auto split: sum.splits option.splits)
  show ?case
  proof (cases j)
    case 0
    then have dj: "d = dj" using Cons.prems(3) d by simp
    have later: "\<forall>item'\<in>set items. \<forall>d'. outcome item' = Inr (Some d')
                   \<longrightarrow> key_of (label d') \<noteq> key_of (label dj)"
    proof (intro ballI allI impI)
      fix item' d' assume "item' \<in> set items" and o: "outcome item' = Inr (Some d')"
      then obtain k where k: "k < length items" "item' = items ! k" by (auto simp: in_set_conv_nth)
      have "j < Suc k \<and> Suc k < length (item # items) \<and> outcome ((item # items) ! Suc k) = Inr (Some d')"
        using 0 k o by simp
      then show "key_of (label d') \<noteq> key_of (label dj)" using Cons.prems(4) by blast
    qed
    have keep: "legendItemCallbacks xs l = Inr l' \<Longrightarrow>
                (\<forall>item'\<in>set xs. \<forall>d'. outcome item' = Inr (Some d') \<longrightarrow> key_of (label d') \<noteq> K)
                \<Longrightarrow> l' K = l K" for xs l l' K
    proof (induction xs arbitrary: l)
      case Nil
      then show ?case by simp
    next
      case (Cons x xs)
      from Cons.prems(1) obtain dx where dx: "outcome x = Inr (Some dx)"
        and r: "legendItemCallbacks xs (setProperty l (key_of (label dx)) (svgcode dx)) = Inr l'"
        by (auto split: sum.splits option.splits)
      have tail: "\<forall>item'\<in>set xs. \<forall>d'. outcome item' = Inr (Some d') \<longrightarrow> key_of (label d') \<noteq> K"
        using Cons.prems(2) by simp
      have "l' K = setProperty l (key_of (label dx)) (svgcode dx) K"
        by (rule Cons.IH [OF r tail])
      moreover have "key_of (label dx) \<noteq> K" using Cons.prems(2) dx by simp
      ultimately show ?case by (simp add: setProperty_other)
    qed
    have "lk (key_of (label dj)) = setProperty lk0 (key_of (label d)) (svgcode d) (key_of (label dj))"
      using rest later by (rule keep)
    then show ?thesis using dj Cons.prems(5) by (simp add: setProperty_same)
  next
    case (Suc j')
    show ?thesis
    proof (rule Cons.IH [OF rest, of j'])
      show "j' < length items" using Cons.prems(2) Suc by simp
      show "outcome (items ! j') = Inr (Some dj)" using Cons.prems(3) Suc by simp
      show "\<forall>k d. j' < k \<and> k < length items \<and> outcome (items ! k) = Inr (Some d)
           \<longrightarrow> key_of (label d) \<noteq> key_of (label dj)"
      proof (intro allI impI)
        fix k d' assume a: "j' < k \<and> k < length items \<and> outcome (items ! k) = Inr (Some d')"
        then have "j < Suc k \<and> Suc k < length (item # items)
                   \<and> outcome ((item # items) ! Suc k) = Inr (Some d')"
          using Suc by simp
        then show "key_of (label d') \<noteq> key_of (label dj)" using Cons.prems(4) by blast
      qed
      show "key_of (label dj) \<noteq> ''__proto__''" by (rule Cons.prems(5))
    qed
  qed
qed

lemma sort_key_settled_in_order:
  "sorted (map settles_at items) \<Longrightarrow> sort_key settles_at items = items"
  by (rule sort_key_id_if_sorted)

text \<open>
  C8, as the code has it. The legend is the one the code reads, \<open>legend.layers[0]\<close>. For a
  renderer of a type other than the three known ones, \<open>enhanceRenderer\<close> does not throw
  and leaves the renderer as it was; and when the legend items have all resolved with an
  entry, the promise it returns resolves and exactly one warning is logged.
\<close>

theorem enhanceRenderer_unsupported_type_resolves:
  assumes "type r \<noteq> SIMPLE" and "type r \<noteq> UNIQUE_VALUE" and "type r \<noteq> CLASS_BREAKS"
    and "layers lg = layer0 # others"
  shows "\<exists>res. enhanceRenderer r lg = Inr res \<and> enhanced res = r
          \<and> ((\<forall>item\<in>set (legend layer0). \<exists>d. outcome item = Inr (Some d))
               \<longrightarrow> res = \<lparr>settled = Inr (), enhanced = r,
                            warnings = [''encountered unsupported renderer type: '' @ type r]\<rparr>)"
proof (cases "legendItemCallbacks (sort_key settles_at (legend layer0)) emptyObject")
  case (Inl e)
  have "\<not> (\<forall>item\<in>set (legend layer0). \<exists>d. outcome item = Inr (Some d))"
  proof
    assume "\<forall>item\<in>set (legend layer0). \<exists>d. outcome item = Inr (Some d)"
    then have "\<forall>item\<in>set (sort_key settles_at (legend layer0)). \<exists>d. outcome item = Inr (Some d)"
      by simp
    from legendItemCallbacks_resolved [OF this, of emptyObject]
    show False using Inl by simp
  qed
  moreover have "enhanceRenderer r lg = Inr \<lparr>settled = Inl e, enhanced = r, warnings = []\<rparr>"
    using Inl assms(4) by (simp add: enhanceRenderer_def)
  ultimately show ?thesis by simp
next
  case (Inr lk)
  then have "enhanceRenderer r lg = Inr \<lparr>settled = Inr (), enhanced = r,
                warnings = [''encountered unsupported renderer type: '' @ type r]\<rparr>"
    using assms by (simp add: enhanceRenderer_def)
  then show ?thesis by simp
qed

theorem enhanceRenderer_unsupported_type_resolves_witness:
  "type (example_uniqueValue\<lparr>type := ''heatmap''\<rparr>) \<noteq> SIMPLE
   \<and> type (example_uniqueValue\<lparr>type := ''heatmap''\<rparr>) \<noteq> UNIQUE_VALUE
   \<and> type (example_uniqueValue\<lparr>type := ''heatmap''\<rparr>) \<noteq> CLASS_BREAKS
   \<and> map outcome (legend (hd (layers (example_legend 1 2))))
       = [Inr (Some \<lparr>label = Some ''lake'', svgcode = Some (example_svg ''first.png'')\<rparr>),
          Inr (Some \<lparr>label = Some ''lake'', svgcode = Some (example_svg ''second.png'')\<rparr>)]
   \<and> enhanceRenderer (example_uniqueValue\<lparr>type := ''heatmap''\<rparr>) (example_legend 1 2)
       = Inr \<lparr>settled = Inr (), enhanced = example_uniqueValue\<lparr>type := ''heatmap''\<rparr>,
              warnings = [''encountered unsupported renderer type: heatmap'']\<rparr>"
proof -
  let ?r = "example_uniqueValue\<lparr>type := ''heatmap''\<rparr>"
  have ty: "type ?r \<noteq> SIMPLE" "type ?r \<noteq> UNIQUE_VALUE" "type ?r \<noteq> CLASS_BREAKS"
    by (simp_all add: SIMPLE_def UNIQUE_VALUE_def CLASS_BREAKS_def)
  have l: "layers (example_legend 1 2) = hd (layers (example_legend 1 2)) # []" by simp
  have res: "\<forall>item\<in>set (legend (hd (layers (example_legend 1 2)))). \<exists>d. outcome item = Inr (Some d)"
    by simp
  from enhanceRenderer_unsupported_type_resolves [OF ty l]
  obtain res' where r: "enhanceRenderer ?r (example_legend 1 2) = Inr res'"
    "(\<forall>item\<in>set (legend (hd (layers (example_legend 1 2)))). \<exists>d. outcome item = Inr (Some d))
       \<longrightarrow> res' = \<lparr>settled = Inr (), enhanced = ?r,
                     warnings = [''encountered unsupported renderer type: '' @ type ?r]\<rparr>"
    by blast
  from r(2) res have "res' = \<lparr>settled = Inr (), enhanced = ?r,
                     warnings = [''encountered unsupported renderer type: '' @ type ?r]\<rparr>"
    by (rule mp)
  then show ?thesis using ty r(1) by simp
qed

text \<open>
  C8, as stated for every call, fails. A legend item whose drawing failed resolves with
  \<open>undefined\<close>; its callback throws on \<open>data.label\<close>, so the promise returned for a
  renderer of the type \<open>heatmap\<close> rejects, and the switch that logs the warning never
  runs. A legend item that rejects does the same. And a legend without layers makes the
  call itself throw.
\<close>

theorem enhanceRenderer_unsupported_type_counterexample:
  "enhanceRenderer (example_uniqueValue\<lparr>type := ''heatmap''\<rparr>)
       \<lparr>layers = [\<lparr>layerId = 0, legend = [\<lparr>settles_at = 1, outcome = Inr None\<rparr>]\<rparr>]\<rparr>
     = Inr \<lparr>settled = Inl TypeError, enhanced = example_uniqueValue\<lparr>type := ''heatmap''\<rparr>,
            warnings = []\<rparr>
   \<and> enhanceRenderer (example_uniqueValue\<lparr>type := ''heatmap''\<rparr>)
       \<lparr>layers = [\<lparr>layerId = 0,
                    legend = [\<lparr>settles_at = 1, outcome = Inl (Failure ''image not found'')\<rparr>]\<rparr>]\<rparr>
     = Inr \<lparr>settled = Inl (Failure ''image not found''),
            enhanced = example_uniqueValue\<lparr>type := ''heatmap''\<rparr>, warnings = []\<rparr>
   \<and> enhanceRenderer (example_uniqueValue\<lparr>type := ''heatmap''\<rparr>) \<lparr>layers = []\<rparr> = Inl TypeError"
  by (simp add: enhanceRenderer_def)

text \<open>
  C5, as the code has it. Every legend item of \<open>legend.layers[0]\<close> has resolved with an
  entry. Take the items in the order they settle, which is the order of the list when
  the moments ascend along the list (as they do when all items are settled before the
  call). The entry that comes last in that order among those with its label, the label
  not being \<open>__proto__\<close>, is the one whose icon the lookup keeps: every unique value info,
  every class break info and the simple renderer with that label receive it.
\<close>

theorem enhanceRenderer_last_label_wins:
  assumes "layers lg = layer0 # others"
    and "\<forall>item\<in>set (legend layer0). \<exists>d. outcome item = Inr (Some d)"
    and "j < length (sort_key settles_at (legend layer0))"
    and "outcome (sort_key settles_at (legend layer0) ! j) = Inr (Some dj)"
    and "\<forall>k d. j < k \<and> k < length (sort_key settles_at (legend layer0))
               \<and> outcome (sort_key settles_at (legend layer0) ! k) = Inr (Some d)
           \<longrightarrow> key_of (label d) \<noteq> key_of (label dj)"
    and "key_of (label dj) \<noteq> ''__proto__''"
  shows "(sorted (map settles_at (legend layer0))
            \<longrightarrow> sort_key settles_at (legend layer0) = legend layer0)
       \<and> (\<exists>res. enhanceRenderer r lg = Inr res \<and> settled res = Inr ()
          \<and> (type r = UNIQUE_VALUE \<longrightarrow>
                length (uniqueValueInfos (enhanced res)) = length (uniqueValueInfos r)
              \<and> (\<forall>i<length (uniqueValueInfos r).
                    key_of (label (uniqueValueInfos r ! i)) = key_of (label dj)
                    \<longrightarrow> svgcode (uniqueValueInfos (enhanced res) ! i) = map_option Markup (svgcode dj)))
          \<and> (type r = CLASS_BREAKS \<longrightarrow>
                length (classBreakInfos (enhanced res)) = length (classBreakInfos r)
              \<and> (\<forall>i<length (classBreakInfos r).
                    key_of (label (classBreakInfos r ! i)) = key_of (label dj)
                    \<longrightarrow> svgcode (classBreakInfos (enhanced res) ! i) = map_option Markup (svgcode dj)))
          \<and> (type r = SIMPLE \<and> key_of (label r) = key_of (label dj)
                \<longrightarrow> svgcode (enhanced res) = map_option Markup (svgcode dj)))"
proof
  show "sorted (map settles_at (legend layer0))
            \<longrightarrow> sort_key settles_at (legend layer0) = legend layer0"
    using sort_key_settled_in_order by blast
next
  have "\<forall>item\<in>set (sort_key settles_at (legend layer0)). \<exists>d. outcome item = Inr (Some d)"
    using assms(2) by simp
  from legendItemCallbacks_resolved [OF this]
  obtain lk where lk: "legendItemCallbacks (sort_key settles_at (legend layer0)) emptyObject = Inr lk"
    by blast
  have "lk (key_of (label dj)) = Some (svgcode dj)"
    using lk assms(3,4,5,6) by (rule legendItemCallbacks_last)
  then have win: "getProperty lk (key_of (label dj)) = map_option Markup (svgcode dj)"
    by (rule getProperty_own)
  consider (simple) "type r = SIMPLE" | (uv) "type r = UNIQUE_VALUE" | (cb) "type r = CLASS_BREAKS"
    | (other) "type r \<noteq> SIMPLE" "type r \<noteq> UNIQUE_VALUE" "type r \<noteq> CLASS_BREAKS"
    by blast
  then show "\<exists>res. enhanceRenderer r lg = Inr res \<and> settled res = Inr ()
          \<and> (type r = UNIQUE_VALUE \<longrightarrow>
                length (uniqueValueInfos (enhanced res)) = length (uniqueValueInfos r)
              \<and> (\<forall>i<length (uniqueValueInfos r).
                    key_of (label (uniqueValueInfos r ! i)) = key_of (label dj)
                    \<longrightarrow> svgcode (uniqueValueInfos (enhanced res) ! i) = map_option Markup (svgcode dj)))
          \<and> (type r = CLASS_BREAKS \<longrightarrow>
                length (classBreakInfos (enhanced res)) = length (classBreakInfos r)
              \<and> (\<forall>i<length (classBreakInfos r).
                    key_of (label (classBreakInfos r ! i)) = key_of (label dj)
                    \<longrightarrow> svgcode (classBreakInfos (enhanced res) ! i) = map_option Markup (svgcode dj)))
          \<and> (type r = SIMPLE \<and> key_of (label r) = key_of (label dj)
                \<longrightarrow> svgcode (enhanced res) = map_option Markup (svgcode dj))"
  proof cases
    case simple
    then show ?thesis using assms(1) lk win
      by (simp add: enhanceRenderer_def renderer_types_distinct)
  next
    case uv
    then show ?thesis using assms(1) lk win
      by (simp add: enhanceRenderer_def renderer_types_distinct)
  next
    case cb
    then show ?thesis using assms(1) lk win
      by (simp add: enhanceRenderer_def renderer_types_distinct)
  next
    case other
    then show ?thesis using assms(1) lk
      by (simp add: enhanceRenderer_def)
  qed
qed

theorem enhanceRenderer_last_label_wins_witness:
  "sort_key settles_at (legend (hd (layers (example_legend 1 1)))) = legend (hd (layers (example_legend 1 1)))
   \<and> map outcome (legend (hd (layers (example_legend 1 1))))
       = [Inr (Some \<lparr>label = Some ''lake'', svgcode = Some (example_svg ''first.png'')\<rparr>),
          Inr (Some \<lparr>label = Some ''lake'', svgcode = Some (example_svg ''second.png'')\<rparr>)]
   \<and> (\<exists>res. enhanceRenderer example_uniqueValue (example_legend 1 1) = Inr res
          \<and> settled res = Inr ()
          \<and> label (uniqueValueInfos example_uniqueValue ! 2) = Some ''lake''
          \<and> svgcode (uniqueValueInfos (enhanced res) ! 2) = Some (example_icon ''second.png''))"
proof -
  let ?lg = "example_legend 1 1"
  let ?dj = "\<lparr>label = Some ''lake'', svgcode = Some (example_svg ''second.png'')\<rparr>"
  have l: "layers ?lg = hd (layers ?lg) # []" by simp
  have res: "\<forall>item\<in>set (legend (hd (layers ?lg))). \<exists>d. outcome item = Inr (Some d)" by simp
  have ord: "sort_key settles_at (legend (hd (layers ?lg))) = legend (hd (layers ?lg))" by simp
  have j: "1 < length (sort_key settles_at (legend (hd (layers ?lg))))" by simp
  have dj: "outcome (sort_key settles_at (legend (hd (layers ?lg))) ! 1) = Inr (Some ?dj)" by simp
  have lst: "\<forall>k d. 1 < k \<and> k < length (sort_key settles_at (legend (hd (layers ?lg))))
               \<and> outcome (sort_key settles_at (legend (hd (layers ?lg))) ! k) = Inr (Some d)
           \<longrightarrow> key_of (label d) \<noteq> key_of (label ?dj)" by auto
  have np: "key_of (label ?dj) \<noteq> ''__proto__''" by (simp add: key_of_def)
  from enhanceRenderer_last_label_wins [OF l res j dj lst np, of example_uniqueValue]
  obtain res where r: "enhanceRenderer example_uniqueValue ?lg = Inr res" "settled res = Inr ()"
    "type example_uniqueValue = UNIQUE_VALUE \<longrightarrow>
       length (uniqueValueInfos (enhanced res)) = length (uniqueValueInfos example_uniqueValue)
       \<and> (\<forall>i<length (uniqueValueInfos example_uniqueValue).
             key_of (label (uniqueValueInfos example_uniqueValue ! i)) = key_of (label ?dj)
             \<longrightarrow> svgcode (uniqueValueInfos (enhanced res) ! i) = map_option Markup (svgcode ?dj))"
    by blast
  have "svgcode (uniqueValueInfos (enhanced res) ! 2) = Some (example_icon ''second.png'')"
    using r(3) by (simp add: UNIQUE_VALUE_def key_of_def)
  then show ?thesis using ord r(1,2) by simp
qed

text \<open>
  C5, as stated for every legend, fails: the assignment to the lookup runs in the
  callback of each item, so the item that settles last wins. Two entries labelled
  \<open>lake\<close>, the first settling at moment 5 (an image to load) and the second at moment 1,
  leave the icon of the first, earlier, entry on the renderer.
\<close>

theorem enhanceRenderer_settle_order_counterexample:
  "map_sum id (\<lambda>res. (settled res, map svgcode (uniqueValueInfos (enhanced res))))
        (enhanceRenderer example_uniqueValue (example_legend 5 1))
       = Inr (Inr (), [None, None, Some (example_icon ''first.png'')])"
  by (simp add: enhanceRenderer_def SIMPLE_def UNIQUE_VALUE_def truthy_def key_of_def
      emptyObject_def setProperty_def getProperty_def objectPrototypeMembers_def)

text \<open>
  The lookup is a plain object. An entry labelled \<open>__proto__\<close> leaves no property behind,
  and a unique value info with that label, or with the label \<open>constructor\<close> and no such
  legend entry, receives the member of \<open>Object.prototype\<close> of that name.
\<close>

lemma enhanceRenderer_inherited_members:
  "map_sum id (\<lambda>res. (settled res, map svgcode (uniqueValueInfos (enhanced res))))
        (enhanceRenderer
           (example_uniqueValue
              \<lparr>uniqueValueInfos :=
                 [\<lparr>label = Some ''__proto__'', svgcode = None, symbol = Sym 1, value = ''a''\<rparr>,
                  \<lparr>label = Some ''constructor'', svgcode = None, symbol = Sym 2, value = ''b''\<rparr>,
                  \<lparr>label = Some ''lake'', svgcode = None, symbol = Sym 3, value = ''c''\<rparr>]\<rparr>)
           \<lparr>layers =
              [\<lparr>layerId = 0,
                legend =
                  [\<lparr>settles_at = 1,
                    outcome = Inr (Some \<lparr>label = Some ''__proto__'', svgcode = Some (example_svg ''first.png'')\<rparr>)\<rparr>,
                   \<lparr>settles_at = 1,
                    outcome = Inr (Some \<lparr>label = Some ''lake'', svgcode = Some (example_svg ''second.png'')\<rparr>)\<rparr>]\<rparr>]\<rparr>)
       = Inr (Inr (), [Some (PrototypeMember ''__proto__''), Some (PrototypeMember ''constructor''),
                       Some (example_icon ''second.png'')])"
  by (simp add: enhanceRenderer_def SIMPLE_def UNIQUE_VALUE_def truthy_def key_of_def
      emptyObject_def setProperty_def getProperty_def objectPrototypeMembers_def)

section \<open>Properties of rendererToLegend\<close>

lemma map_throwing_all:
  assumes "\<forall>x\<in>set xs. \<exists>y. f x = Inr y"
  shows "\<exists>ys. map_throwing f xs = Inr ys \<and> length ys = length xs
            \<and> (\<forall>i<length xs. f (xs ! i) = Inr (ys ! i))"
  using assms
proof (induction xs)
  case Nil
  then show ?case by simp
next
  case (Cons x xs)
  then obtain y where y: "f x = Inr y" by auto
  have "\<forall>x\<in>set xs. \<exists>y. f x = Inr y" using Cons.prems by simp
  from Cons.IH [OF this]
  obtain ys where ys: "map_throwing f xs = Inr ys" "length ys = length xs"
      "\<forall>i<length xs. f (xs ! i) = Inr (ys ! i)"
    by blast
  have "\<forall>i<length (x # xs). f ((x # xs) ! i) = Inr ((y # ys) ! i)"
  proof (intro allI impI)
    fix i assume "i < length (x # xs)"
    then show "f ((x # xs) ! i) = Inr ((y # ys) ! i)"
      using y ys(3) by (cases i) simp_all
  qed
  then show ?case using y ys(1,2)
    by (intro exI [of _ "y # ys"]) simp
qed

text \<open>\<open>symbolToLegend\<close> returns a legend item for a symbol object that the drawing routine accepts.\<close>

lemma symbolToLegend_returns:
  "drawSymbol x = Inr td \<Longrightarrow> \<exists>item. symbolToLegend drawSymbol (Sym x) lab = Inr item"
  by (cases td) (simp add: symbolToLegend_def)

lemma scrapeListRenderer_order:
  assumes kids: "\<forall>child\<in>set childList. \<exists>x td. symbol child = Sym x \<and> drawSymbol x = Inr td"
    and dflt: "defaultSymbol r \<noteq> SymUndefined
                 \<longrightarrow> (\<exists>x td. defaultSymbol r = Sym x \<and> drawSymbol x = Inr td)"
  shows "\<exists>items. scrapeListRenderer drawSymbol r childList = Inr items
          \<and> length items = length childList + (if defaultSymbol r \<noteq> SymUndefined then 1 else 0)
          \<and> (\<forall>i<length childList.
                symbolToLegend drawSymbol (symbol (childList ! i)) (label (childList ! i)) = Inr (items ! i))
          \<and> (defaultSymbol r \<noteq> SymUndefined \<longrightarrow>
                symbolToLegend drawSymbol (defaultSymbol r)
                  (Some (case defaultLabel r of None \<Rightarrow> [] | Some l \<Rightarrow> l)) = Inr (last items))"
proof -
  let ?f = "\<lambda>child. symbolToLegend drawSymbol (symbol child) (label child)"
  have "\<forall>child\<in>set childList. \<exists>y. ?f child = Inr y"
  proof
    fix child assume "child \<in> set childList"
    then obtain x td where x: "symbol child = Sym x" and td: "drawSymbol x = Inr td"
      using kids by blast
    have "\<exists>y. symbolToLegend drawSymbol (Sym x) (label child) = Inr y"
      using symbolToLegend_returns [where drawSymbol = drawSymbol and x = x
          and lab = "label child", OF td] .
    then show "\<exists>y. ?f child = Inr y" using x by simp
  qed
  from map_throwing_all [OF this]
  obtain ys where ys: "map_throwing ?f childList = Inr ys" "length ys = length childList"
      "\<forall>i<length childList. ?f (childList ! i) = Inr (ys ! i)"
    by blast
  have lab: "(if truthy (defaultLabel r) then defaultLabel r else Some [])
             = Some (case defaultLabel r of None \<Rightarrow> [] | Some l \<Rightarrow> l)"
    by (cases "defaultLabel r") (simp_all add: truthy_def)
  show ?thesis
  proof (cases "defaultSymbol r = SymUndefined")
    case True
    then have "scrapeListRenderer drawSymbol r childList = Inr ys"
      using ys(1) by (simp add: scrapeListRenderer_def)
    then show ?thesis using True ys(2,3)
      by (intro exI [of _ ys]) simp
  next
    case False
    then obtain x td where x: "defaultSymbol r = Sym x" and td: "drawSymbol x = Inr td"
      using dflt by blast
    have "\<exists>d. symbolToLegend drawSymbol (Sym x)
                  (Some (case defaultLabel r of None \<Rightarrow> [] | Some l \<Rightarrow> l)) = Inr d"
      using symbolToLegend_returns [where drawSymbol = drawSymbol and x = x
          and lab = "Some (case defaultLabel r of None \<Rightarrow> [] | Some l \<Rightarrow> l)", OF td] .
    then obtain d where d: "symbolToLegend drawSymbol (defaultSymbol r)
                  (Some (case defaultLabel r of None \<Rightarrow> [] | Some l \<Rightarrow> l)) = Inr d"
      using x by auto
    have "scrapeListRenderer drawSymbol r childList = Inr (ys @ [d])"
      unfolding scrapeListRenderer_def ys(1) lab using False d by simp
    moreover have "\<forall>i<length childList. ?f (childList ! i) = Inr ((ys @ [d]) ! i)"
      using ys(2,3) by (simp add: nth_append)
    ultimately show ?thesis using False ys(2) d
      by (intro exI [of _ "ys @ [d]"]) simp
  qed
qed

text \<open>
  C9, as the code has it. Every unique value info (or class break info) of the renderer,
  and its default symbol when it has one, carries a symbol object that the drawing
  routine accepts: an object whose type and style have a drawing routine. Then the
  legend has one item per unique value info (or class break info), in their order, each
  the \<open>symbolToLegend\<close> of its symbol and label; when the renderer has a default symbol,
  exactly one more item follows, drawn from the default symbol and labelled with the
  default label, or with the empty string when there is none.
\<close>

theorem rendererToLegend_branch_order:
  "(type r = UNIQUE_VALUE
      \<and> (\<forall>s \<in> symbol ` set (uniqueValueInfos r) \<union> ({defaultSymbol r} - {SymUndefined}).
             \<exists>x td. s = Sym x \<and> drawSymbol x = Inr td) \<longrightarrow>
           (\<exists>items. rendererToLegend drawSymbol r index
                       = ([], Inr \<lparr>layers = [\<lparr>layerId = index, legend = items\<rparr>]\<rparr>)
              \<and> length items = length (uniqueValueInfos r)
                                 + (if defaultSymbol r \<noteq> SymUndefined then 1 else 0)
              \<and> (\<forall>i<length (uniqueValueInfos r).
                    symbolToLegend drawSymbol (symbol (uniqueValueInfos r ! i))
                      (label (uniqueValueInfos r ! i)) = Inr (items ! i))
              \<and> (defaultSymbol r \<noteq> SymUndefined \<longrightarrow>
                    symbolToLegend drawSymbol (defaultSymbol r)
                      (Some (case defaultLabel r of None \<Rightarrow> [] | Some l \<Rightarrow> l)) = Inr (last items))))
   \<and> (type r = CLASS_BREAKS
      \<and> (\<forall>s \<in> symbol ` set (classBreakInfos r) \<union> ({defaultSymbol r} - {SymUndefined}).
             \<exists>x td. s = Sym x \<and> drawSymbol x = Inr td) \<longrightarrow>
           (\<exists>items. rendererToLegend drawSymbol r index
                       = ([], Inr \<lparr>layers = [\<lparr>layerId = index, legend = items\<rparr>]\<rparr>)
              \<and> length items = length (classBreakInfos r)
                                 + (if defaultSymbol r \<noteq> SymUndefined then 1 else 0)
              \<and> (\<forall>i<length (classBreakInfos r).
                    symbolToLegend drawSymbol (symbol (classBreakInfos r ! i))
                      (label (classBreakInfos r ! i)) = Inr (items ! i))
              \<and> (defaultSymbol r \<noteq> SymUndefined \<longrightarrow>
                    symbolToLegend drawSymbol (defaultSymbol r)
                      (Some (case defaultLabel r of None \<Rightarrow> [] | Some l \<Rightarrow> l)) = Inr (last items))))"
proof (intro conjI impI)
  assume "type r = UNIQUE_VALUE
      \<and> (\<forall>s \<in> symbol ` set (uniqueValueInfos r) \<union> ({defaultSymbol r} - {SymUndefined}).
             \<exists>x td. s = Sym x \<and> drawSymbol x = Inr td)"
  then have uv: "type r = UNIQUE_VALUE"
    and ok: "\<forall>s \<in> symbol ` set (uniqueValueInfos r) \<union> ({defaultSymbol r} - {SymUndefined}).
             \<exists>x td. s = Sym x \<and> drawSymbol x = Inr td"
    by (rule conjunct1, rule conjunct2)
  obtain items where items: "scrapeListRenderer drawSymbol r (uniqueValueInfos r) = Inr items"
      "length items = length (uniqueValueInfos r) + (if defaultSymbol r \<noteq> SymUndefined then 1 else 0)"
      "\<forall>i<length (uniqueValueInfos r).
                symbolToLegend drawSymbol (symbol (uniqueValueInfos r ! i))
                  (label (uniqueValueInfos r ! i)) = Inr (items ! i)"
      "defaultSymbol r \<noteq> SymUndefined \<longrightarrow>
                symbolToLegend drawSymbol (defaultSymbol r)
                  (Some (case defaultLabel r of None \<Rightarrow> [] | Some l \<Rightarrow> l)) = Inr (last items)"
  proof -
    have kids: "\<forall>child\<in>set (uniqueValueInfos r). \<exists>x td. symbol child = Sym x \<and> drawSymbol x = Inr td"
    proof
      fix child assume "child \<in> set (uniqueValueInfos r)"
      then have "symbol child \<in> symbol ` set (uniqueValueInfos r)
                \<union> ({defaultSymbol r} - {SymUndefined})" by simp
      then show "\<exists>x td. symbol child = Sym x \<and> drawSymbol x = Inr td" by (rule bspec [OF ok])
    qed
    have dflt: "defaultSymbol r \<noteq> SymUndefined
                  \<longrightarrow> (\<exists>x td. defaultSymbol r = Sym x \<and> drawSymbol x = Inr td)"
    proof
      assume "defaultSymbol r \<noteq> SymUndefined"
      then have "defaultSymbol r \<in> symbol ` set (uniqueValueInfos r)
                \<union> ({defaultSymbol r} - {SymUndefined})" by simp
      then show "\<exists>x td. defaultSymbol r = Sym x \<and> drawSymbol x = Inr td" by (rule bspec [OF ok])
    qed
    from scrapeListRenderer_order [OF kids dflt] that show ?thesis by blast
  qed
  have "rendererToLegend drawSymbol r index = ([], Inr \<lparr>layers = [\<lparr>layerId = index, legend = items\<rparr>]\<rparr>)"
    using uv items(1) by (simp add: rendererToLegend_def renderer_types_distinct)
  then show "\<exists>items. rendererToLegend drawSymbol r index
                       = ([], Inr \<lparr>layers = [\<lparr>layerId = index, legend = items\<rparr>]\<rparr>)
              \<and> length items = length (uniqueValueInfos r)
                                 + (if defaultSymbol r \<noteq> SymUndefined then 1 else 0)
              \<and> (\<forall>i<length (uniqueValueInfos r).
                    symbolToLegend drawSymbol (symbol (uniqueValueInfos r ! i))
                      (label (uniqueValueInfos r ! i)) = Inr (items ! i))
              \<and> (defaultSymbol r \<noteq> SymUndefined \<longrightarrow>
                    symbolToLegend drawSymbol (defaultSymbol r)
                      (Some (case defaultLabel r of None \<Rightarrow> [] | Some l \<Rightarrow> l)) = Inr (last items))"
    using items(2,3,4) by blast
next
  assume "type r = CLASS_BREAKS
      \<and> (\<forall>s \<in> symbol ` set (classBreakInfos r) \<union> ({defaultSymbol r} - {SymUndefined}).
             \<exists>x td. s = Sym x \<and> drawSymbol x = Inr td)"
  then have cb: "type r = CLASS_BREAKS"
    and ok: "\<forall>s \<in> symbol ` set (classBreakInfos r) \<union> ({defaultSymbol r} - {SymUndefined}).
             \<exists>x td. s = Sym x \<and> drawSymbol x = Inr td"
    by (rule conjunct1, rule conjunct2)
  obtain items where items: "scrapeListRenderer drawSymbol r (classBreakInfos r) = Inr items"
      "length items = length (classBreakInfos r) + (if defaultSymbol r \<noteq> SymUndefined then 1 else 0)"
      "\<forall>i<length (classBreakInfos r).
                symbolToLegend drawSymbol (symbol (classBreakInfos r ! i))
                  (label (classBreakInfos r ! i)) = Inr (items ! i)"
      "defaultSymbol r \<noteq> SymUndefined \<longrightarrow>
                symbolToLegend drawSymbol (defaultSymbol r)
                  (Some (case defaultLabel r of None \<Rightarrow> [] | Some l \<Rightarrow> l)) = Inr (last items)"
  proof -
    have kids: "\<forall>child\<in>set (classBreakInfos r). \<exists>x td. symbol child = Sym x \<and> drawSymbol x = Inr td"
    proof
      fix child assume "child \<in> set (classBreakInfos r)"
      then have "symbol child \<in> symbol ` set (classBreakInfos r)
                \<union> ({defaultSymbol r} - {SymUndefined})" by simp
      then show "\<exists>x td. symbol child = Sym x \<and> drawSymbol x = Inr td" by (rule bspec [OF ok])
    qed
    have dflt: "defaultSymbol r \<noteq> SymUndefined
                  \<longrightarrow> (\<exists>x td. defaultSymbol r = Sym x \<and> drawSymbol x = Inr td)"
    proof
      assume "defaultSymbol r \<noteq> SymUndefined"
      then have "defaultSymbol r \<in> symbol ` set (classBreakInfos r)
                \<union> ({defaultSymbol r} - {SymUndefined})" by simp
      then show "\<exists>x td. defaultSymbol r = Sym x \<and> drawSymbol x = Inr td" by (rule bspec [OF ok])
    qed
    from scrapeListRenderer_order [OF kids dflt] that show ?thesis by blast
  qed
  have "rendererToLegend drawSymbol r index = ([], Inr \<lparr>layers = [\<lparr>layerId = index, legend = items\<rparr>]\<rparr>)"
    using cb items(1) by (simp add: rendererToLegend_def renderer_types_distinct)
  then show "\<exists>items. rendererToLegend drawSymbol r index
                       = ([], Inr \<lparr>layers = [\<lparr>layerId = index, legend = items\<rparr>]\<rparr>)
              \<and> length items = length (classBreakInfos r)
                                 + (if defaultSymbol r \<noteq> SymUndefined then 1 else 0)
              \<and> (\<forall>i<length (classBreakInfos r).
                    symbolToLegend drawSymbol (symbol (classBreakInfos r ! i))
                      (label (classBreakInfos r ! i)) = Inr (items ! i))
              \<and> (defaultSymbol r \<noteq> SymUndefined \<longrightarrow>
                    symbolToLegend drawSymbol (defaultSymbol r)
                      (Some (case defaultLabel r of None \<Rightarrow> [] | Some l \<Rightarrow> l)) = Inr (last items))"
    using items(2,3,4) by blast
qed

theorem rendererToLegend_branch_order_witness:
  "type example_uniqueValue = UNIQUE_VALUE
   \<and> symbol ` set (uniqueValueInfos example_uniqueValue)
      \<union> ({defaultSymbol example_uniqueValue} - {SymUndefined})
     = {Sym 0, Sym 1, Sym 2, Sym 3}
   \<and> map example_drawing [0, 1, 2, 3]
     = [Inr (0, Inr (example_svg ''drawn.png'')), Inr (1, Inr (example_svg ''drawn.png'')),
        Inr (2, Inr (example_svg ''drawn.png'')), Inr (3, Inr (example_svg ''drawn.png''))]
   \<and> (\<exists>items. rendererToLegend example_drawing example_uniqueValue 4
                 = ([], Inr \<lparr>layers = [\<lparr>layerId = 4, legend = items\<rparr>]\<rparr>)
        \<and> length items = 4
        \<and> map outcome items =
            [Inr (Some \<lparr>label = Some ''small lake'', svgcode = Some (example_svg ''drawn.png'')\<rparr>),
             Inr (Some \<lparr>label = Some ''pond'', svgcode = Some (example_svg ''drawn.png'')\<rparr>),
             Inr (Some \<lparr>label = Some ''lake'', svgcode = Some (example_svg ''drawn.png'')\<rparr>),
             Inr (Some \<lparr>label = Some ''other'', svgcode = Some (example_svg ''drawn.png'')\<rparr>)])"
proof -
  have ty: "type example_uniqueValue = UNIQUE_VALUE" by (simp add: UNIQUE_VALUE_def)
  have syms: "symbol ` set (uniqueValueInfos example_uniqueValue)
      \<union> ({defaultSymbol example_uniqueValue} - {SymUndefined})
     = {Sym 0, Sym 1, Sym 2, Sym 3}"
    by auto
  have draws: "map example_drawing [0, 1, 2, 3]
     = [Inr (0, Inr (example_svg ''drawn.png'')), Inr (1, Inr (example_svg ''drawn.png'')),
        Inr (2, Inr (example_svg ''drawn.png'')), Inr (3, Inr (example_svg ''drawn.png''))]"
    by simp
  have h: "type example_uniqueValue = UNIQUE_VALUE
      \<and> (\<forall>s \<in> symbol ` set (uniqueValueInfos example_uniqueValue)
                 \<union> ({defaultSymbol example_uniqueValue} - {SymUndefined}).
             \<exists>x td. s = Sym x \<and> example_drawing x = Inr td)"
    using ty by simp
  from rendererToLegend_branch_order
         [where drawSymbol = example_drawing and r = example_uniqueValue and index = 4] h
  obtain items where it: "rendererToLegend example_drawing example_uniqueValue 4
                       = ([], Inr \<lparr>layers = [\<lparr>layerId = 4, legend = items\<rparr>]\<rparr>)"
    "length items = length (uniqueValueInfos example_uniqueValue)
                                 + (if defaultSymbol example_uniqueValue \<noteq> SymUndefined then 1 else 0)"
    "\<forall>i<length (uniqueValueInfos example_uniqueValue).
                    symbolToLegend example_drawing (symbol (uniqueValueInfos example_uniqueValue ! i))
                      (label (uniqueValueInfos example_uniqueValue ! i)) = Inr (items ! i)"
    "defaultSymbol example_uniqueValue \<noteq> SymUndefined \<longrightarrow>
                    symbolToLegend example_drawing (defaultSymbol example_uniqueValue)
                      (Some (case defaultLabel example_uniqueValue of None \<Rightarrow> [] | Some l \<Rightarrow> l))
                    = Inr (last items)"
    by blast
  have len: "length items = 4" using it(2) by simp
  then obtain a b c d where abcd: "items = [a, b, c, d]"
    by (auto simp: length_Suc_conv numeral_eq_Suc)
  have a: "Inr a = symbolToLegend example_drawing (Sym 1) (Some ''small lake'')"
    using it(3) [rule_format, of 0] abcd by simp
  have b: "Inr b = symbolToLegend example_drawing (Sym 2) (Some ''pond'')"
    using it(3) [rule_format, of 1] abcd by simp
  have c: "Inr c = symbolToLegend example_drawing (Sym 3) (Some ''lake'')"
    using it(3) [rule_format, of 2] abcd by simp
  have d: "Inr d = symbolToLegend example_drawing (Sym 0) (Some ''other'')"
    using it(4) abcd by simp
  have m: "map outcome items =
            [Inr (Some \<lparr>label = Some ''small lake'', svgcode = Some (example_svg ''drawn.png'')\<rparr>),
             Inr (Some \<lparr>label = Some ''pond'', svgcode = Some (example_svg ''drawn.png'')\<rparr>),
             Inr (Some \<lparr>label = Some ''lake'', svgcode = Some (example_svg ''drawn.png'')\<rparr>),
             Inr (Some \<lparr>label = Some ''other'', svgcode = Some (example_svg ''drawn.png'')\<rparr>)]"
    using a b c d abcd by (auto simp: symbolToLegend_def)
  show ?thesis
    by (intro conjI exI [of _ items]) (fact ty syms draws it(1) len m)+
qed

text \<open>
  C9, as stated for every renderer, fails. \<open>symbolToLegend\<close> calls
  \<open>symbolTypes[symbol.type]()\<close> before there is a promise to catch an exception. A unique
  value info without a symbol, or with a symbol of a type the drawing routine does not
  know, makes \<open>rendererToLegend\<close> throw: there is no legend, and no entry for the other
  branches either.
\<close>

theorem rendererToLegend_throws_counterexample:
  "(\<forall>drawSymbol. \<exists>e.
      rendererToLegend drawSymbol
        (example_uniqueValue
           \<lparr>uniqueValueInfos :=
              [\<lparr>label = Some ''small lake'', svgcode = None, symbol = Sym 1, value = ''lake, small''\<rparr>,
               \<lparr>label = Some ''pond'', svgcode = None, symbol = SymUndefined, value = ''pond''\<rparr>]\<rparr>) 4
        = ([], Inl e))
   \<and> rendererToLegend example_drawing
        (example_uniqueValue
           \<lparr>uniqueValueInfos :=
              [\<lparr>label = Some ''small lake'', svgcode = None, symbol = Sym 1, value = ''lake, small''\<rparr>,
               \<lparr>label = Some ''pond'', svgcode = None, symbol = Sym 12, value = ''pond''\<rparr>]\<rparr>) 4
        = ([], Inl TypeError)"
  by (simp add: rendererToLegend_def scrapeListRenderer_def symbolToLegend_def
      SIMPLE_def UNIQUE_VALUE_def split: sum.splits prod.splits)

section \<open>Properties of generateWMSSymbology\<close>

text \<open>Without an image the promise resolves with an entry that holds an empty icon of 32 by 32.\<close>

lemma generateWMSSymbology_no_image:
  "imageUri = None \<or> imageUri = Some [] \<Longrightarrow>
   generateWMSSymbology conv load nm imageUri
     = ([], Inr (Some \<lparr>name = nm,
                       item_svgcode = Some \<lparr>svg_size = Some (32, 32), svg_viewbox = Some (0, 0, 0, 0),
                                             svg_children = []\<rparr>\<rparr>))"
  by (auto simp: generateWMSSymbology_def viewbox_def size_svg_def svgjs_def CONTAINER_SIZE_def)

text \<open>With an image that loads, the entry holds the drawing of the image, its view box the size of the image.\<close>

lemma generateWMSSymbology_image_loaded:
  "uri \<noteq> [] \<Longrightarrow> conv uri = Inr dataUri \<Longrightarrow> load dataUri = Inr (w, h) \<Longrightarrow>
   generateWMSSymbology conv load nm (Some uri)
     = ([], Inr (Some \<lparr>name = nm,
                       item_svgcode = Some \<lparr>svg_size = Some (32, 32), svg_viewbox = Some (0, 0, w, h),
                                             svg_children = [ImageElement dataUri]\<rparr>\<rparr>))"
  by (simp add: generateWMSSymbology_def svgDrawImage_def viewbox_def size_svg_def svgjs_def
      image_svg_def CONTAINER_SIZE_def)

text \<open>
  When the conversion or the loading of the image fails, the promise resolves with
  \<open>undefined\<close>, after the message of the handler of \<open>catch\<close>, and for a failed loading the
  error that \<open>svgDrawImage\<close> prints first.
\<close>

lemma generateWMSSymbology_conversion_fails:
  "uri \<noteq> [] \<Longrightarrow> conv uri = Inl e \<Longrightarrow>
   generateWMSSymbology conv load nm (Some uri)
     = ([[''Cannot draw wms legend image; returning empty'', error_text e]], Inr None)"
  by (simp add: generateWMSSymbology_def)

lemma generateWMSSymbology_loading_fails:
  "uri \<noteq> [] \<Longrightarrow> conv uri = Inr dataUri \<Longrightarrow> load dataUri = Inl e \<Longrightarrow>
   generateWMSSymbology conv load nm (Some uri)
     = ([[error_text e], [''Cannot draw wms legend image; returning empty'', error_text e]], Inr None)"
  by (simp add: generateWMSSymbology_def svgDrawImage_def)

text \<open>
  C7, at the input where the code departs from it. The image of a WMS legend fails to
  load. \<open>svgDrawImage\<close> prints the error; the handler of \<open>catch\<close> logs its message with
  the error and stores the empty drawing in the entry, but does not return the entry:
  the promise resolves with \<open>undefined\<close>, not with \<open>{name, svgcode}\<close>.
\<close>

theorem generateWMSSymbology_image_failure:
  "generateWMSSymbology (\<lambda>uri. Inr uri) (\<lambda>uri. Inl (Failure ''image not found''))
      ''roads'' (Some ''http://example.org/legend.png'')
     = ([[''image not found''],
         [''Cannot draw wms legend image; returning empty'', ''image not found'']], Inr None)"
  by (simp add: generateWMSSymbology_def svgDrawImage_def)

section \<open>Properties of getZoomLevel\<close>

subsection \<open>One iteration of the loop\<close>

lemma zoomLoop_step_low:
  "0 \<le> c \<Longrightarrow> c < int (length lods) \<Longrightarrow> t \<le> scale (lods ! nat c) \<Longrightarrow>
   zoomLoop lods t c low high n =
     (if high = c + 1 then Some (Inr ((high + c) div 2, Suc n))
      else zoomLoop lods t ((high + c) div 2) c high (Suc n))"
  by (subst zoomLoop.simps) (simp add: Let_def)

lemma zoomLoop_step_high:
  "0 \<le> c \<Longrightarrow> c < int (length lods) \<Longrightarrow> \<not> t \<le> scale (lods ! nat c) \<Longrightarrow>
   zoomLoop lods t c low high n =
     (if c = low + 1 then Some (Inr ((c + low) div 2, Suc n))
      else zoomLoop lods t ((c + low) div 2) low c (Suc n))"
  by (subst zoomLoop.simps) (simp add: Let_def)

subsection \<open>The search between two indices\<close>

text \<open>
  From a state whose current index is the middle of \<open>low\<close> and \<open>high\<close>, with the scale
  at \<open>low\<close> at or above the limit and the scale at \<open>high\<close> below it, the loop returns
  after \<open>m\<close> more iterations, \<open>2 ^ m \<le> 2 * (high - low - 1)\<close>, and its result \<open>k\<close> is
  the place where the scales cross the limit. Induction on \<open>high - low\<close>.
\<close>

lemma zoomLoop_mid:
  assumes "0 \<le> low" "high < int (length lods)" "low + 2 \<le> high" 
    "t \<le> scale (lods ! nat low)" "scale (lods ! nat high) < t"
  shows "\<exists>k m. zoomLoop lods t ((high + low) div 2) low high n = Some (Inr (k, n + m))
           \<and> low \<le> k \<and> k < high \<and> t \<le> scale (lods ! nat k) \<and> scale (lods ! nat (k + 1)) < t
           \<and> 1 \<le> m \<and> (2::nat) ^ m \<le> 2 * nat (high - low - 1)"
  using assms
proof (induction "nat (high - low)" arbitrary: low high n rule: less_induct)
  case less
  define c where "c = (high + low) div 2"
  have cb: "2 * c \<le> high + low" "high + low \<le> 2 * c + 1"
    unfolding c_def by linarith+
  have c: "low < c" "c < high" using cb less.prems(3) by linarith+
  have rng: "0 \<le> c" "c < int (length lods)" using c less.prems(1,2) by linarith+
  have base: "(2::nat) ^ 1 \<le> 2 * nat (high - low - 1)" using less.prems(3) by simp
  show ?case unfolding c_def [symmetric]
  proof (cases "t \<le> scale (lods ! nat c)")
    case True
    note step = zoomLoop_step_low [OF rng True, of low high n]
    show "\<exists>k m. zoomLoop lods t c low high n = Some (Inr (k, n + m))
           \<and> low \<le> k \<and> k < high \<and> t \<le> scale (lods ! nat k) \<and> scale (lods ! nat (k + 1)) < t
           \<and> 1 \<le> m \<and> (2::nat) ^ m \<le> 2 * nat (high - low - 1)"
    proof (cases "high = c + 1")
      case h: True
      have mid: "(high + c) div 2 = c" using h by linarith
      have "zoomLoop lods t c low high n = Some (Inr (c, n + 1))"
        using step h mid by simp
      moreover have "scale (lods ! nat (c + 1)) < t" using h less.prems(5) by simp
      ultimately show ?thesis using c True base
        by (intro exI[of _ c] exI[of _ "1::nat"]) simp
    next
      case h: False
      have m: "nat (high - c) < nat (high - low)" using c by linarith
      have p3: "c + 2 \<le> high" using c h by linarith
      obtain k m where km: "zoomLoop lods t ((high + c) div 2) c high (Suc n) = Some (Inr (k, Suc n + m))"
           "c \<le> k" "k < high" "t \<le> scale (lods ! nat k)" "scale (lods ! nat (k + 1)) < t"
           "1 \<le> m" "(2::nat) ^ m \<le> 2 * nat (high - c - 1)"
        using less.hyps [OF m rng(1) less.prems(2) p3 True less.prems(5), of "Suc n"] by blast
      have "(2::nat) ^ (Suc m) \<le> 2 * (2 * nat (high - c - 1))" using km(7) by simp
      also have "\<dots> \<le> 2 * nat (high - low - 1)" using cb c by linarith
      finally have pw: "(2::nat) ^ (Suc m) \<le> 2 * nat (high - low - 1)" .
      have "zoomLoop lods t c low high n = Some (Inr (k, n + Suc m))"
        using step h km(1) by simp
      moreover have "low \<le> k" using c km(2) by linarith
      moreover have "1 \<le> Suc m" by simp
      ultimately show ?thesis using km(3,4,5) pw
        by (intro exI[of _ k] exI[of _ "Suc m"]) simp
    qed
  next
    case False
    note step = zoomLoop_step_high [OF rng False, of low high n]
    show "\<exists>k m. zoomLoop lods t c low high n = Some (Inr (k, n + m))
           \<and> low \<le> k \<and> k < high \<and> t \<le> scale (lods ! nat k) \<and> scale (lods ! nat (k + 1)) < t
           \<and> 1 \<le> m \<and> (2::nat) ^ m \<le> 2 * nat (high - low - 1)"
    proof (cases "c = low + 1")
      case h: True
      have mid: "(c + low) div 2 = low" using h by linarith
      have "zoomLoop lods t c low high n = Some (Inr (low, n + 1))"
        using step h mid by simp
      moreover have "scale (lods ! nat (low + 1)) < t" using h False by simp
      moreover have "low < high" using c by linarith
      ultimately show ?thesis using less.prems(4) base
        by (intro exI[of _ low] exI[of _ "1::nat"]) simp
    next
      case h: False
      have m: "nat (c - low) < nat (high - low)" using c by linarith
      have p3: "low + 2 \<le> c" using c h by linarith
      have lt: "scale (lods ! nat c) < t" using False by simp
      obtain k m where km: "zoomLoop lods t ((c + low) div 2) low c (Suc n) = Some (Inr (k, Suc n + m))"
           "low \<le> k" "k < c" "t \<le> scale (lods ! nat k)" "scale (lods ! nat (k + 1)) < t"
           "1 \<le> m" "(2::nat) ^ m \<le> 2 * nat (c - low - 1)"
        using less.hyps [OF m less.prems(1) rng(2) p3 less.prems(4) lt, of "Suc n"] by blast
      have "(2::nat) ^ (Suc m) \<le> 2 * (2 * nat (c - low - 1))" using km(7) by simp
      also have "\<dots> \<le> 2 * nat (high - low - 1)" using cb c by linarith
      finally have pw: "(2::nat) ^ (Suc m) \<le> 2 * nat (high - low - 1)" .
      have "zoomLoop lods t c low high n = Some (Inr (k, n + Suc m))"
        using step h km(1) by simp
      moreover have "k < high" using c km(3) by linarith
      moreover have "1 \<le> Suc m" by simp
      ultimately show ?thesis using km(2,4,5) pw
        by (intro exI[of _ k] exI[of _ "Suc m"]) simp
    qed
  qed
qed


subsection \<open>A state the loop never leaves\<close>

text \<open>
  When the current, low and high index are one and the same index, whose scale is at or
  above the limit, an iteration changes nothing and \<open>high = low + 1\<close> never holds.
\<close>

lemma zoomLoop_stuck_aux:
  assumes "zoomLoop lods t c l h n = Some y"
  shows "\<not> (c = l \<and> l = h \<and> 0 \<le> c \<and> c < int (length lods) \<and> t \<le> scale (lods ! nat c))"
proof (rule zoomLoop.raw_induct [where P = "\<lambda>lods t c l h n y.
          \<not> (c = l \<and> l = h \<and> 0 \<le> c \<and> c < int (length lods) \<and> t \<le> scale (lods ! nat c))", OF _ assms])
  fix f :: "lod list \<Rightarrow> real \<Rightarrow> int \<Rightarrow> int \<Rightarrow> int \<Rightarrow> nat \<Rightarrow> (error + int \<times> nat) option"
    and lods t c l h n y
  assume IH: "\<And>lods t c l h n y. f lods t c l h n = Some y \<Longrightarrow>
          \<not> (c = l \<and> l = h \<and> 0 \<le> c \<and> c < int (length lods) \<and> t \<le> scale (lods ! nat c))"
    and step: "(if 0 \<le> c \<and> c < int (length lods)
         then let lowLod' = if t \<le> scale (lods ! nat c) then c else l;
                  highLod' = if t \<le> scale (lods ! nat c) then h else c;
                  currentLod' = (highLod' + lowLod') div 2
              in if highLod' = lowLod' + 1 then Some (Inr (currentLod', Suc n))
                 else f lods t currentLod' lowLod' highLod' (Suc n)
         else Some (Inl TypeError)) = Some y"
  show "\<not> (c = l \<and> l = h \<and> 0 \<le> c \<and> c < int (length lods) \<and> t \<le> scale (lods ! nat c))"
  proof
    assume stuck: "c = l \<and> l = h \<and> 0 \<le> c \<and> c < int (length lods) \<and> t \<le> scale (lods ! nat c)"
    then have eqs: "l = c" "h = c" and rng: "0 \<le> c" "c < int (length lods)"
      and ge: "t \<le> scale (lods ! nat c)" by auto
    have "f lods t c c c (Suc n) = Some y"
      using step rng ge unfolding eqs by (simp add: Let_def)
    then show False using IH [of lods t c c c "Suc n" y] rng ge by simp
  qed
qed

lemma zoomLoop_stuck:
  "0 \<le> c \<Longrightarrow> c < int (length lods) \<Longrightarrow> t \<le> scale (lods ! nat c) \<Longrightarrow> zoomLoop lods t c c c n = None"
  using zoomLoop_stuck_aux [of lods t c c c n] by (cases "zoomLoop lods t c c c n") auto

subsection \<open>The first iteration\<close>

text \<open>
  The first current index is \<open>ceil(length / 2)\<close>, not the middle of the range. With at
  least three entries, a first scale at or above the limit and a last scale below it, the
  first iteration leads into a state of \<open>zoomLoop_mid\<close> or returns.
\<close>

lemma getZoomLevel_run_closest:
  assumes len: "3 \<le> length lods" and nz: "maxScale \<noteq> 0"
    and first: "maxScale \<le> scale (lods ! 0)"
    and lst: "scale (lods ! (length lods - 1)) < maxScale"
  shows "\<exists>k m. getZoomLevel_run lods maxScale = Some (Inr (int k, m))
           \<and> k + 1 < length lods \<and> maxScale \<le> scale (lods ! k) \<and> scale (lods ! (k + 1)) < maxScale
           \<and> 1 \<le> m \<and> (2::nat) ^ m \<le> 2 * (length lods - 1)"
proof -
  define H where "H = int (length lods) - 1"
  define c where "c = (int (length lods) + 1) div 2"
  have H2: "2 \<le> H" using len by (simp add: H_def)
  have cb: "H + 1 \<le> 2 * c" "2 * c \<le> H + 2" unfolding c_def H_def by linarith+
  have rng: "0 \<le> c" "c < int (length lods)" using cb H2 unfolding H_def by linarith+
  have cH: "c \<le> H" using rng(2) unfolding H_def by linarith
  have run: "getZoomLevel_run lods maxScale = zoomLoop lods maxScale c 0 H 0"
    using nz by (simp add: getZoomLevel_run_def c_def H_def)
  have first': "maxScale \<le> scale (lods ! nat 0)" using first by simp
  have natH: "nat H = length lods - 1" unfolding H_def by linarith
  have lst': "scale (lods ! nat H) < maxScale" using lst by (simp only: natH)
  have p2: "H < int (length lods)" by (simp add: H_def)
  have base: "(2::nat) ^ 1 \<le> 2 * nat H" using H2 by simp
  have fin: "\<exists>k m. zoomLoop lods maxScale c 0 H 0 = Some (Inr (k, m))
           \<and> 0 \<le> k \<and> k < H \<and> maxScale \<le> scale (lods ! nat k) \<and> scale (lods ! nat (k + 1)) < maxScale
           \<and> 1 \<le> m \<and> (2::nat) ^ m \<le> 2 * nat H"
  proof (cases "maxScale \<le> scale (lods ! nat c)")
    case True
    then have cne: "c \<noteq> H" using lst' by auto
    then have clt: "c < H" using cH by linarith
    note step = zoomLoop_step_low [OF rng True, of 0 H 0]
    show ?thesis
    proof (cases "H = c + 1")
      case h: True
      have mid: "(H + c) div 2 = c" using h by linarith
      have "zoomLoop lods maxScale c 0 H 0 = Some (Inr (c, 1))"
        using step h mid by simp
      moreover have "scale (lods ! nat (c + 1)) < maxScale" using h lst' by simp
      ultimately show ?thesis using rng(1) clt True base
        by (intro exI[of _ c] exI[of _ "1::nat"]) simp
    next
      case h: False
      have p3: "c + 2 \<le> H" using clt h by linarith
      obtain k m where km: "zoomLoop lods maxScale ((H + c) div 2) c H (Suc 0) = Some (Inr (k, Suc 0 + m))"
           "c \<le> k" "k < H" "maxScale \<le> scale (lods ! nat k)" "scale (lods ! nat (k + 1)) < maxScale"
           "1 \<le> m" "(2::nat) ^ m \<le> 2 * nat (H - c - 1)"
        using zoomLoop_mid [OF rng(1) p2 p3 True lst', of "Suc 0"] by blast
      have "(2::nat) ^ (Suc m) \<le> 2 * (2 * nat (H - c - 1))" using km(7) by simp
      also have "\<dots> \<le> 2 * nat H" using cb clt by linarith
      finally have pw: "(2::nat) ^ (Suc m) \<le> 2 * nat H" .
      have "zoomLoop lods maxScale c 0 H 0 = Some (Inr (k, Suc m))"
        using step h km(1) by simp
      moreover have "0 \<le> k" using rng(1) km(2) by linarith
      ultimately show ?thesis using km(3,4,5) pw
        by (intro exI[of _ k] exI[of _ "Suc m"]) simp
    qed
  next
    case False
    note step = zoomLoop_step_high [OF rng False, of 0 H 0]
    have h: "c \<noteq> 0 + 1" using cb H2 by linarith
    have p1: "(0::int) \<le> 0" by simp
    have p3: "0 + 2 \<le> c" using cb H2 by linarith
    have lt: "scale (lods ! nat c) < maxScale" using False by simp
    obtain k m where km: "zoomLoop lods maxScale ((c + 0) div 2) 0 c (Suc 0) = Some (Inr (k, Suc 0 + m))"
           "0 \<le> k" "k < c" "maxScale \<le> scale (lods ! nat k)" "scale (lods ! nat (k + 1)) < maxScale"
           "1 \<le> m" "(2::nat) ^ m \<le> 2 * nat (c - 0 - 1)"
      using zoomLoop_mid [OF p1 rng(2) p3 first' lt, of "Suc 0"] by blast
    have "(2::nat) ^ (Suc m) \<le> 2 * (2 * nat (c - 0 - 1))" using km(7) by simp
    also have "\<dots> \<le> 2 * nat H" using cb by linarith
    finally have pw: "(2::nat) ^ (Suc m) \<le> 2 * nat H" .
    have "zoomLoop lods maxScale c 0 H 0 = Some (Inr (k, Suc m))"
      using step h km(1) by simp
    moreover have "k < H" using km(3) cH by linarith
    ultimately show ?thesis using km(2,4,5) pw
      by (intro exI[of _ k] exI[of _ "Suc m"]) simp
  qed
  then obtain k m where km: "zoomLoop lods maxScale c 0 H 0 = Some (Inr (k, m))"
       "0 \<le> k" "k < H" "maxScale \<le> scale (lods ! nat k)" "scale (lods ! nat (k + 1)) < maxScale"
       "1 \<le> m" "(2::nat) ^ m \<le> 2 * nat H" by blast
  have k1: "nat (k + 1) = nat k + 1" using km(2) by linarith
  have "getZoomLevel_run lods maxScale = Some (Inr (int (nat k), m))"
    using run km(1,2) by simp
  moreover have "nat k + 1 < length lods" using km(2,3) unfolding H_def by linarith
  moreover have "scale (lods ! (nat k + 1)) < maxScale" using km(5) k1 by simp
  moreover have "(2::nat) ^ m \<le> 2 * (length lods - 1)"
    using km(7) by (simp only: natH)
  ultimately show ?thesis using km(4,6)
    by (intro exI[of _ "nat k"] exI[of _ m]) simp
qed


lemma getZoomLevel_three_entries_loops:
  "getZoomLevel [\<lparr>scale = 1000\<rparr>, \<lparr>scale = 500\<rparr>, \<lparr>scale = 250\<rparr>] 100 = None"
proof -
  have "zoomLoop [\<lparr>scale = 1000\<rparr>, \<lparr>scale = 500\<rparr>, \<lparr>scale = 250\<rparr>] 100 2 0 2 0
      = zoomLoop [\<lparr>scale = 1000\<rparr>, \<lparr>scale = 500\<rparr>, \<lparr>scale = 250\<rparr>] 100 2 2 2 (Suc 0)"
    by (subst zoomLoop.simps) (simp add: Let_def)
  also have "\<dots> = None" by (rule zoomLoop_stuck) simp_all
  finally show ?thesis by (simp add: getZoomLevel_def getZoomLevel_run_def)
qed

subsection \<open>Claims about getZoomLevel\<close>

text \<open>
  C3, as the code has it. For a list of at least three entries with monotonically
  decreasing scales and a limit that is not zero, at or below the first scale and above
  the last one, \<open>getZoomLevel\<close> returns after \<open>m\<close> iterations of its loop, where
  \<open>2 ^ m \<le> 2 * (length - 1)\<close> (so \<open>m\<close> is at most \<open>log2 (length - 1) + 1\<close>), and
  the index it returns is the last one whose scale is at or above the limit: the level
  closest to the limit from above.
\<close>

theorem getZoomLevel_closest_level_above:
  assumes "3 \<le> length lods" and "maxScale \<noteq> 0"
    and "sorted (rev (map scale lods))"
    and "maxScale \<le> scale (hd lods)"
    and "scale (last lods) < maxScale"
  shows "\<exists>k m. getZoomLevel_run lods maxScale = Some (Inr (int k, m))
           \<and> getZoomLevel lods maxScale = Some (Inr (int k))
           \<and> k < length lods \<and> maxScale \<le> scale (lods ! k)
           \<and> (\<forall>j < length lods. maxScale \<le> scale (lods ! j) \<longrightarrow> j \<le> k)
           \<and> (2::nat) ^ m \<le> 2 * (length lods - 1)"
proof -
  have ne: "lods \<noteq> []" using assms(1) by auto
  have first: "maxScale \<le> scale (lods ! 0)" using assms(4) ne by (simp add: hd_conv_nth)
  have lst: "scale (lods ! (length lods - 1)) < maxScale" using assms(5) ne by (simp add: last_conv_nth)
  obtain k m where km: "getZoomLevel_run lods maxScale = Some (Inr (int k, m))"
      "k + 1 < length lods" "maxScale \<le> scale (lods ! k)" "scale (lods ! (k + 1)) < maxScale"
      "(2::nat) ^ m \<le> 2 * (length lods - 1)"
    using getZoomLevel_run_closest [OF assms(1,2) first lst] by blast
  have mono: "\<And>i j. i \<le> j \<Longrightarrow> j < length lods \<Longrightarrow> scale (lods ! j) \<le> scale (lods ! i)"
  proof -
    fix i j assume ij: "i \<le> j" "j < length lods"
    have "map scale lods ! j \<le> map scale lods ! i"
      using assms(3) ij by (simp only: sorted_rev_iff_nth_mono length_map)
    then show "scale (lods ! j) \<le> scale (lods ! i)" using ij by simp
  qed
  have last_one: "\<forall>j < length lods. maxScale \<le> scale (lods ! j) \<longrightarrow> j \<le> k"
  proof (intro allI impI)
    fix j assume j: "j < length lods" "maxScale \<le> scale (lods ! j)"
    show "j \<le> k"
    proof (rule ccontr)
      assume "\<not> j \<le> k"
      then have "k + 1 \<le> j" by simp
      then have "scale (lods ! j) \<le> scale (lods ! (k + 1))" using mono j(1) by blast
      then show False using km(4) j(2) by linarith
    qed
  qed
  have "getZoomLevel lods maxScale = Some (Inr (int k))"
    using km(1) by (simp add: getZoomLevel_def)
  moreover have "k < length lods" using km(2) by simp
  ultimately show ?thesis using km(1,3,5) last_one
    by (intro exI[of _ k] exI[of _ m]) simp
qed


theorem getZoomLevel_closest_level_above_witness:
  "3 \<le> length [\<lparr>scale = 1000\<rparr>, \<lparr>scale = 500\<rparr>, \<lparr>scale = 250\<rparr>, \<lparr>scale = 100\<rparr>, \<lparr>scale = 50\<rparr>]
   \<and> (200::real) \<noteq> 0
   \<and> sorted (rev (map scale [\<lparr>scale = 1000\<rparr>, \<lparr>scale = 500\<rparr>, \<lparr>scale = 250\<rparr>, \<lparr>scale = 100\<rparr>, \<lparr>scale = 50\<rparr>]))
   \<and> 200 \<le> scale (hd [\<lparr>scale = 1000\<rparr>, \<lparr>scale = 500\<rparr>, \<lparr>scale = 250\<rparr>, \<lparr>scale = 100\<rparr>, \<lparr>scale = 50\<rparr>])
   \<and> scale (last [\<lparr>scale = 1000\<rparr>, \<lparr>scale = 500\<rparr>, \<lparr>scale = 250\<rparr>, \<lparr>scale = 100\<rparr>, \<lparr>scale = 50\<rparr>]) < 200
   \<and> (\<exists>k m. getZoomLevel [\<lparr>scale = 1000\<rparr>, \<lparr>scale = 500\<rparr>, \<lparr>scale = 250\<rparr>, \<lparr>scale = 100\<rparr>, \<lparr>scale = 50\<rparr>] 200
                = Some (Inr (int k))
           \<and> getZoomLevel_run [\<lparr>scale = 1000\<rparr>, \<lparr>scale = 500\<rparr>, \<lparr>scale = 250\<rparr>, \<lparr>scale = 100\<rparr>, \<lparr>scale = 50\<rparr>] 200
                = Some (Inr (int k, m))
           \<and> k < 5 \<and> (2::nat) ^ m \<le> 8)"
proof -
  have h: "3 \<le> length [\<lparr>scale = 1000\<rparr>, \<lparr>scale = 500\<rparr>, \<lparr>scale = 250\<rparr>, \<lparr>scale = 100\<rparr>, \<lparr>scale = 50\<rparr>]"
    "(200::real) \<noteq> 0"
    "sorted (rev (map scale [\<lparr>scale = 1000\<rparr>, \<lparr>scale = 500\<rparr>, \<lparr>scale = 250\<rparr>, \<lparr>scale = 100\<rparr>, \<lparr>scale = 50\<rparr>]))"
    "200 \<le> scale (hd [\<lparr>scale = 1000\<rparr>, \<lparr>scale = 500\<rparr>, \<lparr>scale = 250\<rparr>, \<lparr>scale = 100\<rparr>, \<lparr>scale = 50\<rparr>])"
    "scale (last [\<lparr>scale = 1000\<rparr>, \<lparr>scale = 500\<rparr>, \<lparr>scale = 250\<rparr>, \<lparr>scale = 100\<rparr>, \<lparr>scale = 50\<rparr>]) < 200"
    by simp_all
  show ?thesis
    using h getZoomLevel_closest_level_above [OF h] by auto
qed

text \<open>
  C3, as stated, fails in two ways. Over five decreasing scales and the limit 200 the
  result is index 2 (scale 250), while the first entry at or above the limit is index 0.
  Over three decreasing scales that are all at or above the limit, the first current
  index is the last index and the loop never returns.
\<close>

theorem getZoomLevel_first_entry_counterexample:
  "getZoomLevel [\<lparr>scale = 1000\<rparr>, \<lparr>scale = 500\<rparr>, \<lparr>scale = 250\<rparr>, \<lparr>scale = 100\<rparr>, \<lparr>scale = 50\<rparr>] 200
     = Some (Inr 2)
   \<and> 200 \<le> scale ([\<lparr>scale = 1000\<rparr>, \<lparr>scale = 500\<rparr>, \<lparr>scale = 250\<rparr>, \<lparr>scale = 100\<rparr>, \<lparr>scale = 50\<rparr>] ! 0)
   \<and> getZoomLevel [\<lparr>scale = 1000\<rparr>, \<lparr>scale = 500\<rparr>, \<lparr>scale = 250\<rparr>] 100 = None"
proof -
  have "getZoomLevel [\<lparr>scale = 1000\<rparr>, \<lparr>scale = 500\<rparr>, \<lparr>scale = 250\<rparr>, \<lparr>scale = 100\<rparr>, \<lparr>scale = 50\<rparr>] 200
     = Some (Inr 2)"
    by (simp add: getZoomLevel_def getZoomLevel_run_def zoomLoop.simps Let_def)
  then show ?thesis
    using getZoomLevel_three_entries_loops by simp
qed

text \<open>
  C6. With a maximum scale of exactly 0 the loop is not entered and the result is
  \<open>length - 1\<close>, which for a list that is not empty is the index of its last entry.
\<close>

theorem getZoomLevel_no_limit:
  "lods \<noteq> [] \<Longrightarrow>
     getZoomLevel lods 0 = Some (Inr (int (length lods - 1)))
     \<and> getZoomLevel_run lods 0 = Some (Inr (int (length lods - 1), 0))
     \<and> lods ! (length lods - 1) = last lods"
  by (cases lods) (simp_all add: getZoomLevel_def getZoomLevel_run_def last_conv_nth)

theorem getZoomLevel_no_limit_witness:
  "[\<lparr>scale = 1000\<rparr>, \<lparr>scale = 500\<rparr>, \<lparr>scale = 250\<rparr>, \<lparr>scale = 100\<rparr>] \<noteq> []
   \<and> getZoomLevel [\<lparr>scale = 1000\<rparr>, \<lparr>scale = 500\<rparr>, \<lparr>scale = 250\<rparr>, \<lparr>scale = 100\<rparr>] 0 = Some (Inr 3)"
  using getZoomLevel_no_limit [of "[\<lparr>scale = 1000\<rparr>, \<lparr>scale = 500\<rparr>, \<lparr>scale = 250\<rparr>, \<lparr>scale = 100\<rparr>]"]
  by simp

end
